theory Spec2Isabelle
  imports Complex_Main "HOL-Library.Char_ord" "HOL-Library.List_Lexorder"
begin

section \<open>Data model\<close>

text \<open>
  The pipeline of \<^verbatim>\<open>models/data_processing.py\<close>, \<^verbatim>\<open>models/model_training.py\<close> and
  \<^verbatim>\<open>models/prediction_utils.py\<close>. Python floats are modelled as exact reals: rounding is
  not part of the model, every arithmetic statement below is one of exact arithmetic.
  A missing cell of a table (pandas NaN) is \<open>None\<close>. Exceptions are values of type
  \<open>error\<close>, a function that can raise returns \<open>error + 'a\<close>.
\<close>

datatype error = FileNotFoundError | KeyError | IndexError | ValueError | TypeError

text \<open>
  One row of \<^verbatim>\<open>Global_Cybersecurity_Threats_2015-2024.csv\<close>. The column names of the
  file are \<^verbatim>\<open>Country\<close>, \<^verbatim>\<open>Year\<close>, \<^verbatim>\<open>Attack Type\<close>, \<^verbatim>\<open>Target Industry\<close>,
  \<^verbatim>\<open>Financial Loss (in Million $)\<close>, \<^verbatim>\<open>Number of Affected Users\<close>, \<^verbatim>\<open>Attack Source\<close>,
  \<^verbatim>\<open>Security Vulnerability Type\<close>, \<^verbatim>\<open>Defense Mechanism Used\<close> and
  \<^verbatim>\<open>Incident Resolution Time (in Hours)\<close>.
\<close>

record incident =
  Country :: "string option"
  Year :: "real option"
  Attack_Type :: "string option"
  Target_Industry :: "string option"
  Financial_Loss :: "real option"
  Number_of_Affected_Users :: "real option"
  Attack_Source :: "string option"
  Security_Vulnerability_Type :: "string option"
  Defense_Mechanism_Used :: "string option"
  Incident_Resolution_Time :: "real option"

text \<open>Sequencing of computations that can raise: the first error wins.\<close>

fun those_res :: "(error + 'a) list \<Rightarrow> error + 'a list" where
  "those_res [] = Inr []"
| "those_res (x # xs) =
     (case x of
        Inl e \<Rightarrow> Inl e
      | Inr v \<Rightarrow> (case those_res xs of Inl e \<Rightarrow> Inl e | Inr vs \<Rightarrow> Inr (v # vs)))"

section \<open>Basic cleaning (\<^verbatim>\<open>preprocess_data\<close>, step 2)\<close>

text \<open>
  \<^verbatim>\<open>df.drop_duplicates(inplace=True)\<close> keeps the first occurrence of every row and the
  order of the rows kept; two missing cells count as equal.
\<close>

fun drop_duplicates_from :: "'a list \<Rightarrow> 'a list \<Rightarrow> 'a list" where
  "drop_duplicates_from seen [] = []"
| "drop_duplicates_from seen (r # rs) =
     (if r \<in> set seen then drop_duplicates_from seen rs
      else r # drop_duplicates_from (r # seen) rs)"

definition drop_duplicates :: "'a list \<Rightarrow> 'a list" where
  "drop_duplicates df = drop_duplicates_from [] df"

text \<open>
  \<^verbatim>\<open>Series.median()\<close> skips missing cells: the middle of the sorted present values, the
  mean of the two middle ones when their number is even, NaN when there is none.
\<close>

definition present :: "'a option list \<Rightarrow> 'a list" where
  "present col = concat (map (\<lambda>c. case c of None \<Rightarrow> [] | Some v \<Rightarrow> [v]) col)"

definition median :: "real option list \<Rightarrow> real option" where
  "median col =
     (let vs = sort (present col); n = length vs
      in if n = 0 then None
         else if odd n then Some (vs ! (n div 2))
         else Some ((vs ! (n div 2 - 1) + vs ! (n div 2)) / 2))"

text \<open>\<^verbatim>\<open>fillna(value)\<close> on one cell; filling with NaN leaves the cell missing.\<close>

definition fillna :: "'a option \<Rightarrow> 'a option \<Rightarrow> 'a option" where
  "fillna v c = (case c of None \<Rightarrow> v | Some x \<Rightarrow> Some x)"

text \<open>
  The statements of step 2 in their order: each \<^verbatim>\<open>fillna\<close> reads its median from the
  table as the statements before it left it. (\<^verbatim>\<open>df[col].fillna(..., inplace=True)\<close>
  writes through to \<open>df\<close>, as it does in the pandas versions before copy-on-write.)
\<close>

definition basic_cleaning :: "incident list \<Rightarrow> incident list" where
  "basic_cleaning df0 =
     (let df1 = drop_duplicates df0;
          df2 = map (Financial_Loss_update (fillna (median (map Financial_Loss df1)))) df1;
          df3 = map (Number_of_Affected_Users_update
                       (fillna (median (map Number_of_Affected_Users df2)))) df2;
          df4 = map (Incident_Resolution_Time_update
                       (fillna (median (map Incident_Resolution_Time df3)))) df3;
          df5 = map (Attack_Type_update (fillna (Some ''Unknown''))) df4;
          df6 = map (Target_Industry_update (fillna (Some ''Unknown''))) df5;
          df7 = map (Attack_Source_update (fillna (Some ''Unknown''))) df6;
          df8 = map (Security_Vulnerability_Type_update (fillna (Some ''Unknown''))) df7;
          df9 = map (Defense_Mechanism_Used_update (fillna (Some ''Unknown''))) df8
      in map (Country_update (fillna (Some ''Unknown''))) df9)"

section \<open>Attack severity factor (step 3)\<close>

definition severity_map :: "(string \<times> real) list" where
  "severity_map =
     [(''Ransomware'', 1.0),
      (''Zero-day'', 1.0),
      (''Malware'', 0.6),
      (''DDoS'', 0.6),
      (''Phishing'', 0.4),
      (''Social Engineering'', 0.4),
      (''Brute Force'', 0.5),
      (''Data Breach'', 0.8),
      (''SQL Injection'', 0.7),
      (''Man-in-the-middle'', 0.7)]"

text \<open>\<^verbatim>\<open>d.get(k, default)\<close>.\<close>

definition dict_get :: "('k \<times> 'v) list \<Rightarrow> 'k \<Rightarrow> 'v \<Rightarrow> 'v" where
  "dict_get d k dflt = (case map_of d k of None \<Rightarrow> dflt | Some v \<Rightarrow> v)"

text \<open>Python's \<^verbatim>\<open>p in s\<close> on strings: \<open>p\<close> occurs in \<open>s\<close> as a contiguous run.\<close>

fun starts_with :: "string \<Rightarrow> string \<Rightarrow> bool" where
  "starts_with [] s = True"
| "starts_with (p # ps) [] = False"
| "starts_with (p # ps) (c # cs) = (p = c \<and> starts_with ps cs)"

fun str_in :: "string \<Rightarrow> string \<Rightarrow> bool" where
  "str_in p [] = (p = [])"
| "str_in p (c # cs) = (starts_with p (c # cs) \<or> str_in p cs)"

text \<open>
  \<^verbatim>\<open>get_severity_factor(row)\<close>. A missing attack type is a NaN key, which the table
  does not hold; \<^verbatim>\<open>"Zero" in vuln\<close> on a missing vulnerability type is a TypeError.
\<close>

definition get_severity_factor :: "incident \<Rightarrow> error + real" where
  "get_severity_factor row =
     (case Security_Vulnerability_Type row of
        None \<Rightarrow> Inl TypeError
      | Some vuln \<Rightarrow>
          (let base = (case Attack_Type row of
                         None \<Rightarrow> 0.3
                       | Some attack \<Rightarrow> dict_get severity_map attack 0.3);
               vboost = (if str_in ''Zero'' vuln \<or> str_in ''Misconfig'' vuln then 0.2 else 0.0)
           in Inr (base + vboost)))"

section \<open>Normalisation and risk score (steps 4 and 5)\<close>

text \<open>
  \<^verbatim>\<open>MinMaxScaler().fit_transform\<close> on one column, as scikit-learn computes it:
  \<^verbatim>\<open>scale_ = 1 / _handle_zeros_in_scale(data_max - data_min)\<close>,
  \<^verbatim>\<open>min_ = 0 - data_min * scale_\<close> and \<^verbatim>\<open>X * scale_ + min_\<close>. A range of zero is
  replaced by one.

  The operations below are the exact ones, so these are the exact values of the formula.
  The program computes it in doubles and does not clip (\<^verbatim>\<open>clip=False\<close> is the default
  of \<^verbatim>\<open>MinMaxScaler\<close>), and its result can differ from the exact value in the last
  place: in a column with the values 1 and 6 the exact value of 6 is 1, the program's is
  1.0000000000000002. No bound on the program's normalised values is drawn from these
  definitions.
\<close>

fun list_min :: "real list \<Rightarrow> real" where
  "list_min [] = 0"
| "list_min (x # xs) = fold min xs x"

fun list_max :: "real list \<Rightarrow> real" where
  "list_max [] = 0"
| "list_max (x # xs) = fold max xs x"

definition handle_zeros_in_scale :: "real \<Rightarrow> real" where
  "handle_zeros_in_scale r = (if r = 0 then 1 else r)"

definition scale_of :: "real list \<Rightarrow> real" where
  "scale_of col = 1 / handle_zeros_in_scale (list_max col - list_min col)"

definition min_of :: "real list \<Rightarrow> real" where
  "min_of col = 0 - list_min col * scale_of col"

definition minmax_transform :: "real list \<Rightarrow> real \<Rightarrow> real" where
  "minmax_transform col x = x * scale_of col + min_of col"

text \<open>
  A numeric cell that is still missing after the cleaning (a column with no value at
  all) stays NaN through the scaler and the risk score, and \<^verbatim>\<open>KMeans.fit_predict\<close>
  rejects it with a ValueError; so does the scaler on a table without rows. Nothing is
  written before that point, so the model raises where the value is read.
\<close>

definition require_num :: "real option \<Rightarrow> error + real" where
  "require_num c = (case c of None \<Rightarrow> Inl ValueError | Some x \<Rightarrow> Inr x)"

record scored =
  raw :: incident
  attack_severity_factor :: real
  Financial_Loss_norm :: real
  Number_of_Affected_Users_norm :: real
  Incident_Resolution_Time_norm :: real
  risk_score :: real

definition score_row :: "real list \<Rightarrow> real list \<Rightarrow> real list \<Rightarrow>
    incident \<times> real \<times> real \<times> real \<times> real \<Rightarrow> scored" where
  "score_row fls aus rts t =
     (case t of (row, factor, fl, au, rt) \<Rightarrow>
        (let fl_norm = minmax_transform fls fl;
             au_norm = minmax_transform aus au;
             rt_norm = minmax_transform rts rt
         in \<lparr> raw = row,
              attack_severity_factor = factor,
              Financial_Loss_norm = fl_norm,
              Number_of_Affected_Users_norm = au_norm,
              Incident_Resolution_Time_norm = rt_norm,
              risk_score = 0.4 * fl_norm + 0.3 * au_norm + 0.2 * rt_norm + 0.1 * factor \<rparr>))"

definition hybrid_risk_score :: "incident list \<Rightarrow> error + scored list" where
  "hybrid_risk_score df =
     (case those_res (map get_severity_factor df) of
        Inl e \<Rightarrow> Inl e
      | Inr factors \<Rightarrow>
          if df = [] then Inl ValueError
          else
            (case those_res (map (require_num \<circ> Financial_Loss) df) of
               Inl e \<Rightarrow> Inl e
             | Inr fls \<Rightarrow>
            (case those_res (map (require_num \<circ> Number_of_Affected_Users) df) of
               Inl e \<Rightarrow> Inl e
             | Inr aus \<Rightarrow>
            (case those_res (map (require_num \<circ> Incident_Resolution_Time) df) of
               Inl e \<Rightarrow> Inl e
             | Inr rts \<Rightarrow>
                 Inr (map (score_row fls aus rts)
                        (zip df (zip factors (zip fls (zip aus rts)))))))))"

section \<open>KMeans severity tiers (steps 6 and 7)\<close>

text \<open>
  \<^verbatim>\<open>KMeans(n_clusters=4, random_state=42)\<close> is scikit-learn's; it is a parameter of the
  model: a function from the feature rows to the cluster id of every row
  (\<^verbatim>\<open>fit_predict\<close>) and the cluster centres (\<^verbatim>\<open>cluster_centers_\<close>), or an error.
\<close>

type_synonym kmeans = "real list list \<Rightarrow> error + (nat list \<times> real list list)"

record processed =
  scored_columns :: scored
  severity_cluster :: nat
  Severity :: "string option"

definition kmeans_features :: "scored \<Rightarrow> real list" where
  "kmeans_features r =
     [risk_score r,
      Financial_Loss_norm r,
      Number_of_Affected_Users_norm r,
      Incident_Resolution_Time_norm r]"

text \<open>\<^verbatim>\<open>a.mean(axis=1)\<close> of one row (the rows of \<^verbatim>\<open>cluster_centers_\<close> have four entries).\<close>

definition row_mean :: "real list \<Rightarrow> real" where
  "row_mean c = sum_list c / real (length c)"

text \<open>
  \<^verbatim>\<open>np.argsort\<close>: the indices in ascending order of their values, equal values in
  index order.
\<close>

definition argsort :: "real list \<Rightarrow> nat list" where
  "argsort xs = sort_key (\<lambda>i. xs ! i) [0..<length xs]"

text \<open>
  Steps 6 and 7. \<^verbatim>\<open>cluster_order[3]\<close> is an IndexError on fewer than four centres,
  the column assignment a ValueError when the number of labels is not the number of
  rows; \<^verbatim>\<open>Series.map\<close> leaves a cluster id the dictionary does not have missing.
\<close>

definition kmeans_severity :: "kmeans \<Rightarrow> scored list \<Rightarrow> error + processed list" where
  "kmeans_severity km df =
     (case km (map kmeans_features df) of
        Inl e \<Rightarrow> Inl e
      | Inr (labels, cluster_centers) \<Rightarrow>
          if length labels \<noteq> length df then Inl ValueError
          else
            (let centers = map row_mean cluster_centers;
                 cluster_order = argsort centers
             in if length cluster_order < 4 then Inl IndexError
                else
                  (let severity_labels =
                         [(cluster_order ! 0, ''Low''),
                          (cluster_order ! 1, ''Medium''),
                          (cluster_order ! 2, ''High''),
                          (cluster_order ! 3, ''Critical'')]
                   in Inr (map (\<lambda>(r, k). \<lparr> scored_columns = r,
                                            severity_cluster = k,
                                            Severity = map_of severity_labels k \<rparr>)
                             (zip df labels)))))"

definition preprocess_data :: "kmeans \<Rightarrow> incident list \<Rightarrow> error + processed list" where
  "preprocess_data km df =
     (case hybrid_risk_score (basic_cleaning df) of
        Inl e \<Rightarrow> Inl e
      | Inr sc \<Rightarrow> kmeans_severity km sc)"

section \<open>Quantile labels (\<^verbatim>\<open>model_training.py\<close>)\<close>

text \<open>
  \<^verbatim>\<open>Series.quantile(q)\<close>, linear interpolation between the two sorted present values
  around position \<open>q * (n - 1)\<close>; NaN on a column without values.
\<close>

definition quantile :: "real \<Rightarrow> real option list \<Rightarrow> real option" where
  "quantile q col =
     (let vs = sort (present col); n = length vs
      in if n = 0 then None
         else
           (let h = q * real (n - 1);
                lo = nat \<lfloor>h\<rfloor>;
                hi = min (lo + 1) (n - 1)
            in Some (vs ! lo + (vs ! hi - vs ! lo) * (h - real lo))))"

text \<open>
  \<^verbatim>\<open>pd.cut(x, bins=[-1, q1, q2, float("inf")], labels=["Low", "Medium", "High"])\<close>
  with pandas' defaults \<^verbatim>\<open>right=True\<close> and \<^verbatim>\<open>duplicates="raise"\<close>. The edges must
  increase (a NaN edge does not) and must be pairwise different, else ValueError. A
  value falls into the bin numbered by the edges strictly below it
  (\<^verbatim>\<open>searchsorted(side="left")\<close>; the last edge, infinity, is below no value); number 0
  and a missing value give a missing label.
\<close>

definition cut_label :: "real \<Rightarrow> real \<Rightarrow> real option \<Rightarrow> string option" where
  "cut_label q1 q2 c =
     (case c of
        None \<Rightarrow> None
      | Some x \<Rightarrow>
          (let ids = length (filter (\<lambda>b. b < x) [- 1, q1, q2])
           in if ids = 0 then None else Some ([''Low'', ''Medium'', ''High''] ! (ids - 1))))"

definition cut :: "real option list \<Rightarrow> real option \<Rightarrow> real option \<Rightarrow>
    error + string option list" where
  "cut col q1 q2 =
     (case q1 of
        None \<Rightarrow> Inl ValueError
      | Some a \<Rightarrow>
          (case q2 of
             None \<Rightarrow> Inl ValueError
           | Some b \<Rightarrow>
               if \<not> (- 1 \<le> a \<and> a \<le> b) then Inl ValueError
               else if - 1 = a \<or> a = b then Inl ValueError
               else Inr (map (cut_label a b) col)))"

text \<open>
  The trainer reads \<^verbatim>\<open>processed_data.csv\<close>, the table \<^verbatim>\<open>preprocess_data\<close> wrote, and
  overwrites its \<^verbatim>\<open>Severity\<close> column.
\<close>

definition affected_users :: "processed \<Rightarrow> real option" where
  "affected_users r = Number_of_Affected_Users (raw (scored_columns r))"

definition add_severity_label :: "processed list \<Rightarrow> error + processed list" where
  "add_severity_label df =
     (let q1 = quantile 0.33 (map affected_users df);
          q2 = quantile 0.66 (map affected_users df)
      in case cut (map affected_users df) q1 q2 of
           Inl e \<Rightarrow> Inl e
         | Inr labels \<Rightarrow> Inr (map (\<lambda>(r, l). r\<lparr>Severity := l\<rparr>) (zip df labels)))"

section \<open>Encoders, training and the persisted artifacts\<close>

text \<open>
  A Python value as the predictor handles it: a string, a number, or NaN. A dictionary
  is the list of its items in insertion order (keys pairwise different).
\<close>

datatype pyval = Str string | Num real | NaN

type_synonym pydict = "(string \<times> pyval) list"

text \<open>
  \<^verbatim>\<open>LabelEncoder().fit_transform(col)\<close>: \<^verbatim>\<open>classes_\<close> is the sorted list of the
  different values of the column (a missing value, if any, last), and a value is
  encoded as its position there.
\<close>

definition classes_of :: "string option list \<Rightarrow> pyval list" where
  "classes_of col =
     map Str (sort (remdups (present col))) @ (if None \<in> set col then [NaN] else [])"

fun index_of :: "'a list \<Rightarrow> 'a \<Rightarrow> nat" where
  "index_of [] v = 0"
| "index_of (c # cs) v = (if c = v then 0 else Suc (index_of cs v))"

definition cell :: "string option \<Rightarrow> pyval" where
  "cell c = (case c of None \<Rightarrow> NaN | Some s \<Rightarrow> Str s)"

definition number :: "real option \<Rightarrow> pyval" where
  "number c = (case c of None \<Rightarrow> NaN | Some x \<Rightarrow> Num x)"

definition fit_transform :: "string option list \<Rightarrow> string option \<Rightarrow> pyval" where
  "fit_transform col c = Num (real (index_of (classes_of col) (cell c)))"

definition categorical_cols :: "(string \<times> (processed \<Rightarrow> string option)) list" where
  "categorical_cols =
     [(''Country'', Country \<circ> raw \<circ> scored_columns),
      (''Attack Type'', Attack_Type \<circ> raw \<circ> scored_columns),
      (''Target Industry'', Target_Industry \<circ> raw \<circ> scored_columns),
      (''Attack Source'', Attack_Source \<circ> raw \<circ> scored_columns),
      (''Security Vulnerability Type'', Security_Vulnerability_Type \<circ> raw \<circ> scored_columns),
      (''Defense Mechanism Used'', Defense_Mechanism_Used \<circ> raw \<circ> scored_columns),
      (''Severity'', Severity)]"

text \<open>\<^verbatim>\<open>encode_categoricals\<close>: the vocabularies, one per categorical column.\<close>

definition encoders_of :: "processed list \<Rightarrow> (string \<times> pyval list) list" where
  "encoders_of df = map (\<lambda>(name, col). (name, classes_of (map col df))) categorical_cols"

text \<open>
  The feature rows \<open>X\<close> of \<^verbatim>\<open>train_model\<close> in the order of its \<^verbatim>\<open>features\<close> list, the
  categorical columns encoded, and the encoded \<^verbatim>\<open>Severity\<close> column \<open>y\<close>.
\<close>

definition features :: "string list" where
  "features =
     [''Country'', ''Year'', ''Attack Type'', ''Target Industry'',
      ''Financial Loss (in Million $)'', ''Number of Affected Users'',
      ''Attack Source'', ''Security Vulnerability Type'',
      ''Defense Mechanism Used'', ''Incident Resolution Time (in Hours)'']"

definition feature_row :: "processed list \<Rightarrow> processed \<Rightarrow> pyval list" where
  "feature_row df r =
     (let i = raw (scored_columns r);
          enc = (\<lambda>col. fit_transform (map (col \<circ> raw \<circ> scored_columns) df) (col i))
      in [enc Country, number (Year i), enc Attack_Type, enc Target_Industry,
          number (Financial_Loss i), number (Number_of_Affected_Users i),
          enc Attack_Source, enc Security_Vulnerability_Type,
          enc Defense_Mechanism_Used, number (Incident_Resolution_Time i)])"

definition severity_codes :: "processed list \<Rightarrow> nat list" where
  "severity_codes df = map (\<lambda>r. index_of (classes_of (map Severity df)) (cell (Severity r))) df"

text \<open>
  A fitted classifier: \<^verbatim>\<open>model.predict\<close> decides every row on its own, so the model is
  the decision on one feature row (a class index, or the error scikit-learn raises on
  a row it does not accept). The split and the random forest of \<^verbatim>\<open>train_model\<close> are
  scikit-learn's, a parameter \<open>learner\<close> from \<open>X\<close> and \<open>y\<close> to a fitted classifier.
\<close>

type_synonym classifier = "pyval list \<Rightarrow> error + nat"

type_synonym learner = "pyval list list \<Rightarrow> nat list \<Rightarrow> error + classifier"

record metadata =
  label_encoders :: "(string \<times> pyval list) list"
  model_features :: "string list"

text \<open>The two files under \<^verbatim>\<open>models/\<close>; \<open>None\<close> is a file that does not exist.\<close>

record store =
  severity_model_pkl :: "classifier option"
  model_features_json :: "metadata option"

definition load_data :: "processed list option \<Rightarrow> error + processed list" where
  "load_data file = (case file of None \<Rightarrow> Inl FileNotFoundError | Some df \<Rightarrow> Inr df)"

definition run_model_training :: "learner \<Rightarrow> processed list option \<Rightarrow> error + store" where
  "run_model_training fit file =
     (case load_data file of
        Inl e \<Rightarrow> Inl e
      | Inr df0 \<Rightarrow>
          (case add_severity_label df0 of
             Inl e \<Rightarrow> Inl e
           | Inr df \<Rightarrow>
               (let encoders = encoders_of df
                in case fit (map (feature_row df) df) (severity_codes df) of
                     Inl e \<Rightarrow> Inl e
                   | Inr model \<Rightarrow>
                       Inr \<lparr> severity_model_pkl = Some model,
                             model_features_json =
                               Some \<lparr> label_encoders = encoders,
                                      model_features = features \<rparr> \<rparr>)))"

section \<open>Prediction (\<^verbatim>\<open>prediction_utils.py\<close>)\<close>

definition load_model_and_metadata ::
    "store \<Rightarrow> error + (classifier \<times> (string \<times> pyval list) list \<times> string list)" where
  "load_model_and_metadata st =
     (case severity_model_pkl st of
        None \<Rightarrow> Inl FileNotFoundError
      | Some model \<Rightarrow>
          (case model_features_json st of
             None \<Rightarrow> Inl FileNotFoundError
           | Some md \<Rightarrow> Inr (model, label_encoders md, model_features md)))"

text \<open>
  \<^verbatim>\<open>value not in classes\<close>: Python compares with \<^verbatim>\<open>==\<close>, and NaN equals nothing, so a
  NaN value is in no vocabulary.
\<close>

definition py_in :: "pyval \<Rightarrow> pyval list \<Rightarrow> bool" where
  "py_in v classes = (v \<noteq> NaN \<and> v \<in> set classes)"

text \<open>
  The body of the loop of \<^verbatim>\<open>encode_input\<close> for one item of the dictionary.
  \<^verbatim>\<open>classes[0]\<close> is an IndexError on an empty vocabulary; \<^verbatim>\<open>classes.index(value)\<close> is
  the first position of the value, which is then known to be in the list.
\<close>

definition encode_item :: "(string \<times> pyval list) list \<Rightarrow> string \<times> pyval \<Rightarrow>
    error + (string \<times> pyval)" where
  "encode_item encoders item =
     (case item of (key, value) \<Rightarrow>
        (case map_of encoders key of
           Some classes \<Rightarrow>
             if \<not> py_in value classes then
               (case classes of
                  [] \<Rightarrow> Inl IndexError
                | c # _ \<Rightarrow> Inr (key, Num (real (index_of classes c))))
             else Inr (key, Num (real (index_of classes value)))
         | None \<Rightarrow> Inr (key, value)))"

definition encode_input :: "pydict \<Rightarrow> (string \<times> pyval list) list \<Rightarrow> error + pydict" where
  "encode_input input_dict encoders = those_res (map (encode_item encoders) input_dict)"

text \<open>\<^verbatim>\<open>encoded_df[features]\<close> on one row: a KeyError on a column the row does not have.\<close>

definition select_columns :: "string list \<Rightarrow> pydict \<Rightarrow> error + pyval list" where
  "select_columns names row =
     those_res (map (\<lambda>name. case map_of row name of
                               None \<Rightarrow> Inl KeyError
                             | Some v \<Rightarrow> Inr v) names)"

text \<open>\<^verbatim>\<open>model.predict(X)\<close>: a ValueError on a table without rows, else row by row.\<close>

definition predict :: "classifier \<Rightarrow> pyval list list \<Rightarrow> error + nat list" where
  "predict model X = (if X = [] then Inl ValueError else those_res (map model X))"

text \<open>\<^verbatim>\<open>severity_labels[pred]\<close>.\<close>

definition decode_label :: "pyval list \<Rightarrow> nat \<Rightarrow> error + pyval" where
  "decode_label severity_labels pred =
     (if pred < length severity_labels then Inr (severity_labels ! pred) else Inl IndexError)"

definition predict_severity :: "store \<Rightarrow> pydict \<Rightarrow> error + pyval" where
  "predict_severity st input_data =
     (case load_model_and_metadata st of
        Inl e \<Rightarrow> Inl e
      | Inr (model, encoders, feats) \<Rightarrow>
          (case encode_input input_data encoders of
             Inl e \<Rightarrow> Inl e
           | Inr encoded_row \<Rightarrow>
               (case select_columns feats encoded_row of
                  Inl e \<Rightarrow> Inl e
                | Inr x \<Rightarrow>
                    (case predict model [x] of
                       Inl e \<Rightarrow> Inl e
                     | Inr preds \<Rightarrow>
                         (case map_of encoders ''Severity'' of
                            None \<Rightarrow> Inl KeyError
                          | Some severity_labels \<Rightarrow>
                              decode_label severity_labels (hd preds))))))"

text \<open>
  A table handed to \<^verbatim>\<open>predict_batch\<close>: its column names and its rows, every row with
  one cell per column. \<^verbatim>\<open>row.to_dict()\<close> pairs the names with the cells of the row.
\<close>

record dataframe =
  columns :: "string list"
  rows :: "pyval list list"

definition to_dict :: "dataframe \<Rightarrow> pyval list \<Rightarrow> pydict" where
  "to_dict df row = zip (columns df) row"

text \<open>
  \<^verbatim>\<open>pd.DataFrame(encoded_rows)[features]\<close>: a frame built from no row has no column,
  so selecting any is a KeyError.
\<close>

definition select_frame :: "string list \<Rightarrow> pydict list \<Rightarrow> error + pyval list list" where
  "select_frame names encoded_rows =
     (if encoded_rows = [] \<and> names \<noteq> [] then Inl KeyError
      else those_res (map (select_columns names) encoded_rows))"

definition batch_predictions :: "store \<Rightarrow> dataframe \<Rightarrow> error + pyval list" where
  "batch_predictions st df =
     (case load_model_and_metadata st of
        Inl e \<Rightarrow> Inl e
      | Inr (model, encoders, feats) \<Rightarrow>
          (case those_res (map (\<lambda>row. encode_input (to_dict df row) encoders) (rows df)) of
             Inl e \<Rightarrow> Inl e
           | Inr encoded_rows \<Rightarrow>
               (case select_frame feats encoded_rows of
                  Inl e \<Rightarrow> Inl e
                | Inr X \<Rightarrow>
                    (case predict model X of
                       Inl e \<Rightarrow> Inl e
                     | Inr preds \<Rightarrow>
                         (case map_of encoders ''Severity'' of
                            None \<Rightarrow> Inl KeyError
                          | Some severity_labels \<Rightarrow>
                              those_res (map (decode_label severity_labels) preds))))))"

text \<open>
  \<^verbatim>\<open>df["Predicted Severity"] = decoded_preds\<close>: the column is replaced where the table
  has it, and added as the last one where it does not.
\<close>

definition set_column :: "string \<Rightarrow> pyval list \<Rightarrow> dataframe \<Rightarrow> dataframe" where
  "set_column name vals df =
     (if name \<in> set (columns df) then
        df\<lparr>rows := map (\<lambda>(row, v). row[index_of (columns df) name := v]) (zip (rows df) vals)\<rparr>
      else
        df\<lparr>columns := columns df @ [name],
           rows := map (\<lambda>(row, v). row @ [v]) (zip (rows df) vals)\<rparr>)"

definition column :: "string \<Rightarrow> dataframe \<Rightarrow> pyval list option" where
  "column name df =
     (if name \<in> set (columns df) then Some (map (\<lambda>row. row ! index_of (columns df) name) (rows df))
      else None)"

definition predict_batch :: "store \<Rightarrow> dataframe \<Rightarrow> error + dataframe" where
  "predict_batch st df =
     (case batch_predictions st df of
        Inl e \<Rightarrow> Inl e
      | Inr decoded_preds \<Rightarrow> Inr (set_column ''Predicted Severity'' decoded_preds df))"

section \<open>Notions of the specification and of the statements\<close>

text \<open>
  What the cleaning establishes for the scorer: the attack type, the vulnerability type
  and the three numeric columns of the risk score hold a value.
\<close>

definition scorable :: "incident \<Rightarrow> bool" where
  "scorable r =
     (Attack_Type r \<noteq> None \<and> Security_Vulnerability_Type r \<noteq> None \<and>
      Financial_Loss r \<noteq> None \<and> Number_of_Affected_Users r \<noteq> None \<and>
      Incident_Resolution_Time r \<noteq> None)"

text \<open>
  The severity factor in the words of the specification: a base value by attack type,
  and a boost when the vulnerability text contains "Zero" or "Misconfig".
\<close>

definition contains_substring :: "string \<Rightarrow> string \<Rightarrow> bool" where
  "contains_substring s p = (\<exists>u v. s = u @ p @ v)"

definition spec_base :: "string \<Rightarrow> real" where
  "spec_base attack =
     (if attack = ''Ransomware'' \<or> attack = ''Zero-day'' then 1.0
      else if attack = ''Data Breach'' then 0.8
      else if attack = ''SQL Injection'' \<or> attack = ''Man-in-the-middle'' then 0.7
      else if attack = ''Malware'' \<or> attack = ''DDoS'' then 0.6
      else if attack = ''Brute Force'' then 0.5
      else if attack = ''Phishing'' \<or> attack = ''Social Engineering'' then 0.4
      else 0.3)"

definition spec_severity_factor :: "string \<Rightarrow> string \<Rightarrow> real" where
  "spec_severity_factor attack vuln =
     spec_base attack +
     (if contains_substring vuln ''Zero'' \<or> contains_substring vuln ''Misconfig'' then 0.2 else 0.0)"

text \<open>
  A row without a missing value, and the imputation in the words of the specification:
  every row of the de-duplicated table \<open>dd\<close> at once, the medians taken over \<open>dd\<close>.
\<close>

definition no_missing :: "incident \<Rightarrow> bool" where
  "no_missing r =
     (Country r \<noteq> None \<and> Year r \<noteq> None \<and> Attack_Type r \<noteq> None \<and>
      Target_Industry r \<noteq> None \<and> Financial_Loss r \<noteq> None \<and>
      Number_of_Affected_Users r \<noteq> None \<and> Attack_Source r \<noteq> None \<and>
      Security_Vulnerability_Type r \<noteq> None \<and> Defense_Mechanism_Used r \<noteq> None \<and>
      Incident_Resolution_Time r \<noteq> None)"

definition imputed :: "incident list \<Rightarrow> incident \<Rightarrow> incident" where
  "imputed dd r =
     \<lparr> Country = fillna (Some ''Unknown'') (Country r),
       Year = Year r,
       Attack_Type = fillna (Some ''Unknown'') (Attack_Type r),
       Target_Industry = fillna (Some ''Unknown'') (Target_Industry r),
       Financial_Loss = fillna (median (map Financial_Loss dd)) (Financial_Loss r),
       Number_of_Affected_Users =
         fillna (median (map Number_of_Affected_Users dd)) (Number_of_Affected_Users r),
       Attack_Source = fillna (Some ''Unknown'') (Attack_Source r),
       Security_Vulnerability_Type = fillna (Some ''Unknown'') (Security_Vulnerability_Type r),
       Defense_Mechanism_Used = fillna (Some ''Unknown'') (Defense_Mechanism_Used r),
       Incident_Resolution_Time =
         fillna (median (map Incident_Resolution_Time dd)) (Incident_Resolution_Time r) \<rparr>"

text \<open>The order of the trainer's labels: Low, Medium, High.\<close>

definition label_rank :: "string option \<Rightarrow> nat" where
  "label_rank l = (case l of None \<Rightarrow> 0 | Some s \<Rightarrow> index_of [''Low'', ''Medium'', ''High''] s)"

text \<open>
  The tiers of the clustering in their order, and the mean risk score of the rows of a
  tier.
\<close>

definition tiers :: "string list" where
  "tiers = [''Low'', ''Medium'', ''High'', ''Critical'']"

definition tier_rank :: "string option \<Rightarrow> nat" where
  "tier_rank t = (case t of None \<Rightarrow> 0 | Some s \<Rightarrow> index_of tiers s)"

definition tier_mean_risk :: "processed list \<Rightarrow> string \<Rightarrow> real" where
  "tier_mean_risk out t =
     row_mean (map (risk_score \<circ> scored_columns) (filter (\<lambda>r. Severity r = Some t) out))"

definition tier_means :: "processed list \<Rightarrow> real list" where
  "tier_means out = map (tier_mean_risk out) tiers"

text \<open>
  The three labels of the trainer, and an input record of the predictor: the six
  categorical fields with some value, the four numeric fields with a number.
\<close>

definition severity_vocabulary :: "pyval list" where
  "severity_vocabulary = [Str ''Low'', Str ''Medium'', Str ''High'']"

definition categorical_features :: "string list" where
  "categorical_features =
     [''Country'', ''Attack Type'', ''Target Industry'', ''Attack Source'',
      ''Security Vulnerability Type'', ''Defense Mechanism Used'']"

definition numeric_features :: "string list" where
  "numeric_features =
     [''Year'', ''Financial Loss (in Million $)'', ''Number of Affected Users'',
      ''Incident Resolution Time (in Hours)'']"

definition is_number :: "pyval \<Rightarrow> bool" where
  "is_number v = (case v of Num x \<Rightarrow> True | _ \<Rightarrow> False)"

definition has_field :: "pydict \<Rightarrow> string \<Rightarrow> bool" where
  "has_field d k = (map_of d k \<noteq> None)"

definition has_number :: "pydict \<Rightarrow> string \<Rightarrow> bool" where
  "has_number d k = (case map_of d k of Some v \<Rightarrow> is_number v | None \<Rightarrow> False)"

definition raw_record :: "pydict \<Rightarrow> bool" where
  "raw_record d = (list_all (has_field d) categorical_features \<and> list_all (has_number d) numeric_features)"

text \<open>
  Artifacts as a training run persists them (lemma \<open>training_gives_trained\<close> below): both
  files exist, the feature list is the one of \<^verbatim>\<open>train_model\<close>, there is one non-empty
  vocabulary per categorical column, the vocabulary of \<^verbatim>\<open>Severity\<close> holds labels of
  the trainer only, and the classifier answers a row of ten numbers with the index of
  one of them.
\<close>

definition trained :: "store \<Rightarrow> bool" where
  "trained st =
     (\<exists>model md labels.
        severity_model_pkl st = Some model \<and> model_features_json st = Some md \<and>
        model_features md = features \<and>
        map fst (label_encoders md) = map fst categorical_cols \<and>
        (\<forall>classes\<in>snd ` set (label_encoders md). classes \<noteq> []) \<and>
        map_of (label_encoders md) ''Severity'' = Some labels \<and>
        set labels \<subseteq> set severity_vocabulary \<and>
        (\<forall>x. length x = length features \<and> list_all is_number x \<longrightarrow>
             (\<exists>k<length labels. model x = Inr k)))"

text \<open>
  What scikit-learn guarantees of a fitted classifier: on a row of numbers of the
  training width it predicts one of the classes it was fitted on.
\<close>

definition learner_contract :: "learner \<Rightarrow> bool" where
  "learner_contract fit =
     (\<forall>X y model. fit X y = Inr model \<longrightarrow>
        (\<forall>x. length x = length features \<and> list_all is_number x \<longrightarrow>
             (\<exists>k\<in>set y. model x = Inr k)))"

text \<open>A table with pairwise different column names and one cell per column in every row.\<close>

definition rectangular :: "dataframe \<Rightarrow> bool" where
  "rectangular df = (distinct (columns df) \<and> list_all (\<lambda>row. length row = length (columns df)) (rows df))"

text \<open>The value a field is encoded to.\<close>

definition encoded_value :: "(string \<times> pyval list) list \<Rightarrow> string \<Rightarrow> pyval \<Rightarrow> pyval" where
  "encoded_value encoders k v =
     (case map_of encoders k of
        None \<Rightarrow> v
      | Some classes \<Rightarrow>
          Num (real (index_of classes (if py_in v classes then v else hd classes))))"

text \<open>One prediction as a chain of four steps, each on the result of the one before.\<close>

definition predicts :: "classifier \<Rightarrow> (string \<times> pyval list) list \<Rightarrow> string list \<Rightarrow>
    pyval list \<Rightarrow> pydict \<Rightarrow> pyval \<Rightarrow> bool" where
  "predicts model encoders feats labels =
     (\<lambda>d er. encode_input d encoders = Inr er) OO
     (\<lambda>er x. select_columns feats er = Inr x) OO
     (\<lambda>x k. model x = Inr k) OO
     (\<lambda>k p. decode_label labels k = Inr p)"

text \<open>The interpolation of \<open>quantile\<close> at position \<open>h\<close> of a sorted list.\<close>

definition interpolate :: "real list \<Rightarrow> real \<Rightarrow> real" where
  "interpolate vs h =
     (let lo = nat \<lfloor>h\<rfloor>; hi = min (lo + 1) (length vs - 1)
      in vs ! lo + (vs ! hi - vs ! lo) * (h - real lo))"

section \<open>Sample data\<close>

definition incident_of :: "string \<Rightarrow> real \<Rightarrow> string \<Rightarrow> string \<Rightarrow> real \<Rightarrow> real \<Rightarrow> string \<Rightarrow>
    string \<Rightarrow> string \<Rightarrow> real \<Rightarrow> incident" where
  "incident_of country year attack industry loss users source vuln defense hours =
     \<lparr> Country = Some country, Year = Some year, Attack_Type = Some attack,
       Target_Industry = Some industry, Financial_Loss = Some loss,
       Number_of_Affected_Users = Some users, Attack_Source = Some source,
       Security_Vulnerability_Type = Some vuln, Defense_Mechanism_Used = Some defense,
       Incident_Resolution_Time = Some hours \<rparr>"

definition four_incidents :: "incident list" where
  "four_incidents =
     [incident_of ''India'' 2024 ''Phishing'' ''Finance'' 0 0 ''Unknown'' ''Weak Passwords'' ''Firewall'' 0,
      incident_of ''India'' 2024 ''Phishing'' ''Finance'' 0 0 ''Unknown'' ''Weak Passwords'' ''Firewall'' 10,
      incident_of ''India'' 2024 ''Phishing'' ''Finance'' 6 0 ''Unknown'' ''Weak Passwords'' ''Firewall'' 0,
      incident_of ''India'' 2024 ''Phishing'' ''Finance'' 10 10 ''Unknown'' ''Weak Passwords'' ''Firewall'' 10]"

definition year_gap :: "incident list" where
  "year_gap =
     [incident_of ''India'' 2020 ''Phishing'' ''Finance'' 1 100 ''Unknown'' ''Weak Passwords'' ''Firewall'' 5,
      (incident_of ''India'' 0 ''Malware'' ''Finance'' 2 200 ''Unknown'' ''Weak Passwords'' ''Firewall'' 6)
        \<lparr>Year := None, Financial_Loss := None, Country := None\<rparr>,
      incident_of ''India'' 2022 ''DDoS'' ''Finance'' 3 300 ''Unknown'' ''Weak Passwords'' ''Firewall'' 7,
      incident_of ''India'' 2020 ''Phishing'' ''Finance'' 1 100 ''Unknown'' ''Weak Passwords'' ''Firewall'' 5]"

definition one_gap :: "incident list" where
  "one_gap =
     [(incident_of ''India'' 2020 ''Phishing'' ''Finance'' 2 100 ''Unknown'' ''Weak Passwords'' ''Firewall'' 5)
        \<lparr>Financial_Loss := None\<rparr>,
      incident_of ''India'' 2020 ''Phishing'' ''Finance'' 2 100 ''Unknown'' ''Weak Passwords'' ''Firewall'' 5,
      incident_of ''India'' 2022 ''DDoS'' ''Finance'' 2 300 ''Unknown'' ''Weak Passwords'' ''Firewall'' 7]"

text \<open>
  Rows of \<^verbatim>\<open>processed_data.csv\<close> for the trainer, which reads the raw columns only
  and overwrites \<^verbatim>\<open>Severity\<close>.
\<close>

definition table_row :: "incident \<Rightarrow> processed" where
  "table_row i =
     \<lparr> scored_columns =
         \<lparr> raw = i, attack_severity_factor = 0, Financial_Loss_norm = 0,
           Number_of_Affected_Users_norm = 0, Incident_Resolution_Time_norm = 0,
           risk_score = 0 \<rparr>,
       severity_cluster = 0,
       Severity = None \<rparr>"

definition three_incidents :: "incident list" where
  "three_incidents =
     [incident_of ''India'' 2020 ''Phishing'' ''Finance'' 1 100 ''Unknown'' ''Weak Passwords'' ''Firewall'' 5,
      incident_of ''Brazil'' 2021 ''Malware'' ''Retail'' 2 200 ''Insider'' ''Zero-day'' ''VPN'' 6,
      incident_of ''India'' 2022 ''DDoS'' ''Finance'' 3 300 ''Unknown'' ''Weak Passwords'' ''Firewall'' 7]"

definition three_rows :: "processed list" where
  "three_rows = map table_row three_incidents"

definition tied_users :: "processed list" where
  "tied_users = map table_row
     [incident_of ''India'' 2020 ''Phishing'' ''Finance'' 1 100 ''Unknown'' ''Weak Passwords'' ''Firewall'' 5,
      incident_of ''Brazil'' 2021 ''Malware'' ''Retail'' 2 100 ''Insider'' ''Zero-day'' ''VPN'' 6,
      incident_of ''India'' 2022 ''DDoS'' ''Finance'' 3 100 ''Unknown'' ''Weak Passwords'' ''Firewall'' 7,
      incident_of ''Japan'' 2023 ''Ransomware'' ''Health'' 4 250 ''Unknown'' ''Social Engineering'' ''Firewall'' 8]"

text \<open>
  The clustering that puts every row into a cluster of its own, under the row's number:
  what four-centre k-means converges to on four different points (up to the numbering of
  the clusters, which the tiers do not depend on).
\<close>

definition each_point_own_cluster :: kmeans where
  "each_point_own_cluster X = Inr ([0..<length X], X)"

definition four_scored :: "scored list" where
  "four_scored = projr (hybrid_risk_score four_incidents)"

text \<open>
  A learner that meets the contract (a decision stump on the number of affected users),
  the artifacts of a training run with it, the scenario record of the specification, and
  a table of two rows, the second with a country the training has not seen.
\<close>

definition number_of :: "pyval \<Rightarrow> real" where
  "number_of v = (case v of Num x \<Rightarrow> x | _ \<Rightarrow> 0)"

definition stump_learner :: learner where
  "stump_learner X y =
     (if X = [] \<or> y = [] then Inl ValueError
      else Inr (\<lambda>x. if length x = length features \<and> list_all is_number x
                    then Inr (if number_of (x ! 5) \<le> number_of (hd X ! 5) then hd y else last y)
                    else Inl ValueError))"

definition sample_store :: store where
  "sample_store = projr (run_model_training stump_learner (Some three_rows))"

definition scenario_record :: pydict where
  "scenario_record =
     [(''Country'', Str ''India''),
      (''Year'', Num 2024),
      (''Attack Type'', Str ''Phishing''),
      (''Target Industry'', Str ''Finance''),
      (''Financial Loss (in Million $)'', Num 12.5),
      (''Number of Affected Users'', Num 5200),
      (''Attack Source'', Str ''Unknown''),
      (''Security Vulnerability Type'', Str ''Weak Credentials''),
      (''Defense Mechanism Used'', Str ''Firewall''),
      (''Incident Resolution Time (in Hours)'', Num 48)]"

definition sample_table :: dataframe where
  "sample_table =
     \<lparr> columns = map fst scenario_record,
       rows = [map snd scenario_record,
               [Str ''Atlantis'', Num 2025, Str ''Malware'', Str ''Retail'', Num 1, Num 50,
                Str ''Insider'', Str ''Zero-day'', Str ''VPN'', Num 6]] \<rparr>"

definition unseen_record :: pydict where
  "unseen_record = to_dict sample_table (rows sample_table ! 1)"

definition sample_encoders :: "(string \<times> pyval list) list" where
  "sample_encoders = label_encoders (the (model_features_json sample_store))"

section \<open>Auxiliary facts\<close>

lemma those_res_map_Inr: "those_res (map Inr ys) = Inr ys"
  by (induction ys) auto

lemma those_res_InrD: "those_res xs = Inr ys \<Longrightarrow> xs = map Inr ys"
  by (induction xs arbitrary: ys) (auto split: sum.splits)

lemma those_res_map_iff:
  "those_res (map f xs) = Inr ys \<longleftrightarrow> list_all2 (\<lambda>x y. f x = Inr y) xs ys"
proof (induction xs arbitrary: ys)
  case Nil
  then show ?case by auto
next
  case (Cons x xs)
  show ?case
  proof (cases "f x")
    case (Inl e)
    then show ?thesis by (auto simp: list_all2_Cons1)
  next
    case (Inr v)
    then show ?thesis
      using Cons.IH by (cases "those_res (map f xs)") (auto simp: list_all2_Cons1)
  qed
qed

lemma those_res_total:
  "(\<And>x. x \<in> set xs \<Longrightarrow> \<exists>y. f x = Inr y) \<Longrightarrow> \<exists>ys. those_res (map f xs) = Inr ys"
proof (induction xs)
  case Nil
  then show ?case by simp
next
  case (Cons x xs)
  then obtain y ys where "f x = Inr y" "those_res (map f xs) = Inr ys"
    by (meson list.set_intros)
  then show ?case by simp
qed

lemma present_map_Some [simp]: "present (map Some xs) = xs"
  by (induction xs) (simp_all add: present_def)

section \<open>The scorer\<close>

subsection \<open>The severity factor is the table of the specification\<close>

lemma dict_get_severity_map: "dict_get severity_map attack 0.3 = spec_base attack"
  by (simp add: dict_get_def severity_map_def spec_base_def)

lemma starts_with_iff: "starts_with p s \<longleftrightarrow> (\<exists>v. s = p @ v)"
  by (induction p s rule: starts_with.induct) auto

lemma str_in_iff: "str_in p s \<longleftrightarrow> contains_substring s p"
  unfolding contains_substring_def
proof (induction s)
  case Nil
  then show ?case by auto
next
  case (Cons c cs)
  show ?case
  proof
    assume "str_in p (c # cs)"
    then consider "starts_with p (c # cs)" | "str_in p cs" by auto
    then show "\<exists>u v. c # cs = u @ p @ v"
    proof cases
      case 1
      then obtain v where "c # cs = p @ v" using starts_with_iff by blast
      then have "c # cs = [] @ p @ v" by simp
      then show ?thesis by blast
    next
      case 2
      then obtain u v where "cs = u @ p @ v" using Cons.IH by blast
      then have "c # cs = (c # u) @ p @ v" by simp
      then show ?thesis by blast
    qed
  next
    assume "\<exists>u v. c # cs = u @ p @ v"
    then obtain u v where uv: "c # cs = u @ p @ v" by blast
    show "str_in p (c # cs)"
    proof (cases u)
      case Nil
      with uv have "starts_with p (c # cs)" using starts_with_iff by auto
      then show ?thesis by simp
    next
      case (Cons a u')
      with uv have "cs = u' @ p @ v" by simp
      then have "str_in p cs" using Cons.IH by blast
      then show ?thesis by simp
    qed
  qed
qed

lemma get_severity_factor_spec:
  assumes "Attack_Type r = Some attack" and "Security_Vulnerability_Type r = Some vuln"
  shows "get_severity_factor r = Inr (spec_severity_factor attack vuln)"
  using assms
  by (simp add: get_severity_factor_def spec_severity_factor_def dict_get_severity_map
      str_in_iff Let_def)

lemma spec_base_bounds: "0.3 \<le> spec_base a \<and> spec_base a \<le> 1.0"
  by (simp add: spec_base_def)

lemma spec_severity_factor_bounds:
  "0.3 \<le> spec_severity_factor a v \<and> spec_severity_factor a v \<le> 1.2"
  using spec_base_bounds [of a] by (simp add: spec_severity_factor_def)

subsection \<open>The shape of a successful run\<close>

lemma require_num_iff: "require_num c = Inr x \<longleftrightarrow> c = Some x"
  by (cases c) (simp_all add: require_num_def)

lemma require_num_col:
  "those_res (map (require_num \<circ> f) df) = Inr xs \<longleftrightarrow> map f df = map Some xs"
proof -
  have "those_res (map (require_num \<circ> f) df) = Inr xs \<longleftrightarrow>
        list_all2 (\<lambda>r x. f r = Some x) df xs"
    by (simp add: those_res_map_iff require_num_iff)
  also have "\<dots> \<longleftrightarrow> map f df = map Some xs"
    by (induction df arbitrary: xs) (auto simp: list_all2_Cons1)
  finally show ?thesis .
qed

lemma hybrid_risk_score_Inr_iff:
  "hybrid_risk_score df = Inr out \<longleftrightarrow>
     df \<noteq> [] \<and>
     (\<exists>factors fls aus rts.
        map get_severity_factor df = map Inr factors \<and>
        map Financial_Loss df = map Some fls \<and>
        map Number_of_Affected_Users df = map Some aus \<and>
        map Incident_Resolution_Time df = map Some rts \<and>
        out = map (score_row fls aus rts) (zip df (zip factors (zip fls (zip aus rts)))))"
  (is "?L \<longleftrightarrow> ?R")
proof
  assume ?L
  then show ?R
    unfolding hybrid_risk_score_def
    by (auto split: sum.splits if_splits simp: require_num_col dest!: those_res_InrD)
next
  assume ?R
  then show ?L
    unfolding hybrid_risk_score_def
    by (auto simp: those_res_map_Inr require_num_col [THEN iffD2])
qed


lemma map_Some_conv:
  "(\<forall>r\<in>set df. f r \<noteq> None) \<Longrightarrow> map f df = map Some (map (the \<circ> f) df)"
  by (induction df) auto

lemma hybrid_risk_score_returns:
  assumes "df \<noteq> []" and "\<forall>r\<in>set df. scorable r"
  shows "\<exists>out. hybrid_risk_score df = Inr out"
proof -
  have "\<forall>r\<in>set df. \<exists>f. get_severity_factor r = Inr f"
    using assms(2) get_severity_factor_spec by (fastforce simp: scorable_def)
  then have "\<forall>r\<in>set df. get_severity_factor r = Inr (projr (get_severity_factor r))"
    by fastforce
  then have f: "map get_severity_factor df = map Inr (map (projr \<circ> get_severity_factor) df)"
    by (induction df) auto
  have fl: "map Financial_Loss df = map Some (map (the \<circ> Financial_Loss) df)"
    using assms(2) by (intro map_Some_conv) (simp add: scorable_def)
  have au: "map Number_of_Affected_Users df = map Some (map (the \<circ> Number_of_Affected_Users) df)"
    using assms(2) by (intro map_Some_conv) (simp add: scorable_def)
  have rt: "map Incident_Resolution_Time df = map Some (map (the \<circ> Incident_Resolution_Time) df)"
    using assms(2) by (intro map_Some_conv) (simp add: scorable_def)
  show ?thesis
    unfolding hybrid_risk_score_Inr_iff using assms(1) f fl au rt by blast
qed

lemma hybrid_risk_score_nth:
  assumes "hybrid_risk_score df = Inr out"
  shows "length out = length df"
    and "\<exists>fls aus rts.
           map Financial_Loss df = map Some fls \<and>
           map Number_of_Affected_Users df = map Some aus \<and>
           map Incident_Resolution_Time df = map Some rts \<and>
           (\<forall>i<length df.
              \<exists>factor. get_severity_factor (df ! i) = Inr factor \<and>
                out ! i = score_row fls aus rts (df ! i, factor, fls ! i, aus ! i, rts ! i))"
proof -
  from assms obtain factors fls aus rts where
    f: "map get_severity_factor df = map Inr factors" and
    fl: "map Financial_Loss df = map Some fls" and
    au: "map Number_of_Affected_Users df = map Some aus" and
    rt: "map Incident_Resolution_Time df = map Some rts" and
    out: "out = map (score_row fls aus rts) (zip df (zip factors (zip fls (zip aus rts))))"
    unfolding hybrid_risk_score_Inr_iff by blast
  have len: "length factors = length df" "length fls = length df"
    "length aus = length df" "length rts = length df"
    using f fl au rt by (metis length_map)+
  show "length out = length df" using out len by simp
  have "\<forall>i<length df.
              \<exists>factor. get_severity_factor (df ! i) = Inr factor \<and>
                out ! i = score_row fls aus rts (df ! i, factor, fls ! i, aus ! i, rts ! i)"
  proof (intro allI impI)
    fix i assume i: "i < length df"
    have "get_severity_factor (df ! i) = Inr (factors ! i)"
      using f i len by (metis nth_map)
    moreover have "out ! i = score_row fls aus rts (df ! i, factors ! i, fls ! i, aus ! i, rts ! i)"
      using out i len by simp
    ultimately show "\<exists>factor. get_severity_factor (df ! i) = Inr factor \<and>
                out ! i = score_row fls aus rts (df ! i, factor, fls ! i, aus ! i, rts ! i)"
      by blast
  qed
  with fl au rt show "\<exists>fls aus rts.
           map Financial_Loss df = map Some fls \<and>
           map Number_of_Affected_Users df = map Some aus \<and>
           map Incident_Resolution_Time df = map Some rts \<and>
           (\<forall>i<length df.
              \<exists>factor. get_severity_factor (df ! i) = Inr factor \<and>
                out ! i = score_row fls aus rts (df ! i, factor, fls ! i, aus ! i, rts ! i))"
    by blast
qed

lemma four_incidents_scorable: "\<forall>r\<in>set four_incidents. scorable r"
  by (simp add: four_incidents_def incident_of_def scorable_def)

lemma four_incidents_nonempty: "four_incidents \<noteq> []"
  by (simp add: four_incidents_def)

subsection \<open>Claims about the scorer\<close>

text \<open>
  C4. On every table whose rows hold the values the cleaning provides, the scorer
  returns one scored row per row, and in each the risk score is
  \<open>0.4 * financial_loss_norm + 0.3 * affected_users_norm + 0.2 * resolution_hours_norm +
  0.1 * attack_severity_factor\<close>, where the severity factor is the base value of the
  attack type in the specification's table (0.3 for an attack type not in it) plus 0.2
  exactly when the vulnerability text contains "Zero" or "Misconfig".
\<close>

theorem risk_score_formula:
  assumes "df \<noteq> []" and "\<forall>r\<in>set df. scorable r"
  shows "\<exists>out. hybrid_risk_score df = Inr out \<and> length out = length df \<and>
           (\<forall>i<length df.
              raw (out ! i) = df ! i \<and>
              risk_score (out ! i) =
                0.4 * Financial_Loss_norm (out ! i) +
                0.3 * Number_of_Affected_Users_norm (out ! i) +
                0.2 * Incident_Resolution_Time_norm (out ! i) +
                0.1 * attack_severity_factor (out ! i) \<and>
              attack_severity_factor (out ! i) =
                spec_severity_factor (the (Attack_Type (df ! i)))
                  (the (Security_Vulnerability_Type (df ! i))))"
proof -
  from hybrid_risk_score_returns [OF assms] obtain out where
    out: "hybrid_risk_score df = Inr out" by blast
  from hybrid_risk_score_nth [OF out] obtain fls aus rts where
    len: "length out = length df" and
    rows: "\<forall>i<length df.
              \<exists>factor. get_severity_factor (df ! i) = Inr factor \<and>
                out ! i = score_row fls aus rts (df ! i, factor, fls ! i, aus ! i, rts ! i)"
    by blast
  have "raw (out ! i) = df ! i \<and>
              risk_score (out ! i) =
                0.4 * Financial_Loss_norm (out ! i) +
                0.3 * Number_of_Affected_Users_norm (out ! i) +
                0.2 * Incident_Resolution_Time_norm (out ! i) +
                0.1 * attack_severity_factor (out ! i) \<and>
              attack_severity_factor (out ! i) =
                spec_severity_factor (the (Attack_Type (df ! i)))
                  (the (Security_Vulnerability_Type (df ! i)))" if i: "i < length df" for i
  proof -
    from rows i obtain factor where
      f: "get_severity_factor (df ! i) = Inr factor" and
      o: "out ! i = score_row fls aus rts (df ! i, factor, fls ! i, aus ! i, rts ! i)"
      by blast
    from assms(2) i have "scorable (df ! i)" by simp
    then obtain attack vuln where
      av: "Attack_Type (df ! i) = Some attack" "Security_Vulnerability_Type (df ! i) = Some vuln"
      by (auto simp: scorable_def)
    from get_severity_factor_spec [OF av] f have "factor = spec_severity_factor attack vuln"
      by simp
    with o av show ?thesis by (simp add: score_row_def Let_def)
  qed
  with out len show ?thesis by blast
qed


theorem risk_score_formula_witness:
  "three_incidents \<noteq> [] \<and> list_all scorable three_incidents \<and>
   map_sum id (map attack_severity_factor) (hybrid_risk_score three_incidents) =
     Inr [2 / 5, 4 / 5, 3 / 5] \<and>
   map_sum id (map risk_score) (hybrid_risk_score three_incidents) =
     Inr [1 / 25, 53 / 100, 24 / 25] \<and>
   (\<exists>out. hybrid_risk_score three_incidents = Inr out \<and> length out = length three_incidents \<and>
           (\<forall>i<length three_incidents.
              raw (out ! i) = three_incidents ! i \<and>
              risk_score (out ! i) =
                0.4 * Financial_Loss_norm (out ! i) +
                0.3 * Number_of_Affected_Users_norm (out ! i) +
                0.2 * Incident_Resolution_Time_norm (out ! i) +
                0.1 * attack_severity_factor (out ! i) \<and>
              attack_severity_factor (out ! i) =
                spec_severity_factor (the (Attack_Type (three_incidents ! i)))
                  (the (Security_Vulnerability_Type (three_incidents ! i)))))"
proof -
  have h1: "three_incidents \<noteq> []" by (simp add: three_incidents_def)
  have h2: "\<forall>r\<in>set three_incidents. scorable r"
    by (simp add: three_incidents_def incident_of_def scorable_def)
  have h2': "list_all scorable three_incidents" using h2 by (simp add: list_all_iff)
  have factors: "map_sum id (map attack_severity_factor) (hybrid_risk_score three_incidents) =
     Inr [2 / 5, 4 / 5, 3 / 5]"
    by code_simp
  have risks: "map_sum id (map risk_score) (hybrid_risk_score three_incidents) =
     Inr [1 / 25, 53 / 100, 24 / 25]"
    by code_simp
  from risk_score_formula [OF h1 h2] h1 h2' factors risks show ?thesis by (intro conjI)
qed

text \<open>
  C10. On every table whose rows hold the values the cleaning provides, the severity
  factor of every scored row lies between 0.3 and 1.2, and the risk score of a scored
  row lies between 0.03 and 1.02 whenever the three normalised values of the row lie
  between 0 and 1.
\<close>

theorem risk_score_bounds:
  assumes "df \<noteq> []" and "\<forall>r\<in>set df. scorable r"
  shows "\<exists>out. hybrid_risk_score df = Inr out \<and>
           (\<forall>r\<in>set out.
              0.3 \<le> attack_severity_factor r \<and> attack_severity_factor r \<le> 1.2 \<and>
              (0 \<le> Financial_Loss_norm r \<and> Financial_Loss_norm r \<le> 1 \<and>
               0 \<le> Number_of_Affected_Users_norm r \<and> Number_of_Affected_Users_norm r \<le> 1 \<and>
               0 \<le> Incident_Resolution_Time_norm r \<and> Incident_Resolution_Time_norm r \<le> 1 \<longrightarrow>
               0.03 \<le> risk_score r \<and> risk_score r \<le> 1.02))"
proof -
  from hybrid_risk_score_returns [OF assms] obtain out where
    out: "hybrid_risk_score df = Inr out" by blast
  from hybrid_risk_score_nth [OF out] obtain fls aus rts where
    len: "length out = length df" and
    fl: "map Financial_Loss df = map Some fls" and
    au: "map Number_of_Affected_Users df = map Some aus" and
    rt: "map Incident_Resolution_Time df = map Some rts" and
    rows: "\<forall>i<length df.
              \<exists>factor. get_severity_factor (df ! i) = Inr factor \<and>
                out ! i = score_row fls aus rts (df ! i, factor, fls ! i, aus ! i, rts ! i)"
    by blast
  have lens: "length fls = length df" "length aus = length df" "length rts = length df"
    using fl au rt by (metis length_map)+
  have "0.3 \<le> attack_severity_factor r \<and> attack_severity_factor r \<le> 1.2 \<and>
        (0 \<le> Financial_Loss_norm r \<and> Financial_Loss_norm r \<le> 1 \<and>
         0 \<le> Number_of_Affected_Users_norm r \<and> Number_of_Affected_Users_norm r \<le> 1 \<and>
         0 \<le> Incident_Resolution_Time_norm r \<and> Incident_Resolution_Time_norm r \<le> 1 \<longrightarrow>
         0.03 \<le> risk_score r \<and> risk_score r \<le> 1.02)" if r: "r \<in> set out" for r
  proof -
    from r len obtain i where i: "i < length df" and ri: "r = out ! i"
      by (metis in_set_conv_nth)
    from rows i ri obtain factor where
      f: "get_severity_factor (df ! i) = Inr factor" and
      o: "r = score_row fls aus rts (df ! i, factor, fls ! i, aus ! i, rts ! i)"
      by blast
    from assms(2) i have "scorable (df ! i)" by simp
    then obtain attack vuln where
      av: "Attack_Type (df ! i) = Some attack" "Security_Vulnerability_Type (df ! i) = Some vuln"
      by (auto simp: scorable_def)
    from get_severity_factor_spec [OF av] f have "factor = spec_severity_factor attack vuln"
      by simp
    with spec_severity_factor_bounds [of attack vuln]
    have fb: "0.3 \<le> factor" "factor \<le> 1.2" by simp_all
    have fields: "attack_severity_factor r = factor"
      "risk_score r =
         0.4 * Financial_Loss_norm r + 0.3 * Number_of_Affected_Users_norm r +
         0.2 * Incident_Resolution_Time_norm r + 0.1 * factor"
      using o by (simp_all add: score_row_def Let_def)
    have "0.03 \<le> risk_score r \<and> risk_score r \<le> 1.02"
      if "0 \<le> Financial_Loss_norm r \<and> Financial_Loss_norm r \<le> 1 \<and>
          0 \<le> Number_of_Affected_Users_norm r \<and> Number_of_Affected_Users_norm r \<le> 1 \<and>
          0 \<le> Incident_Resolution_Time_norm r \<and> Incident_Resolution_Time_norm r \<le> 1"
      using that fb unfolding fields(2) by simp
    with fb fields(1) show ?thesis by simp
  qed
  with out show ?thesis by blast
qed

text \<open>
  The rows of the four incidents: the normalised values of each lie between 0 and 1
  (0, 3/5 and 1 occur), the severity factor is 2/5, and the risk scores are 1/25, 6/25,
  7/25 and 47/50.
\<close>

theorem risk_score_bounds_witness:
  "four_incidents \<noteq> [] \<and> list_all scorable four_incidents \<and>
   map_sum id (map kmeans_features) (hybrid_risk_score four_incidents) =
     Inr [[1 / 25, 0, 0, 0], [6 / 25, 0, 0, 1], [7 / 25, 3 / 5, 0, 0], [47 / 50, 1, 1, 1]] \<and>
   map_sum id (map attack_severity_factor) (hybrid_risk_score four_incidents) =
     Inr [2 / 5, 2 / 5, 2 / 5, 2 / 5] \<and>
   (\<exists>out. hybrid_risk_score four_incidents = Inr out \<and>
           (\<forall>r\<in>set out.
              0.3 \<le> attack_severity_factor r \<and> attack_severity_factor r \<le> 1.2 \<and>
              (0 \<le> Financial_Loss_norm r \<and> Financial_Loss_norm r \<le> 1 \<and>
               0 \<le> Number_of_Affected_Users_norm r \<and> Number_of_Affected_Users_norm r \<le> 1 \<and>
               0 \<le> Incident_Resolution_Time_norm r \<and> Incident_Resolution_Time_norm r \<le> 1 \<longrightarrow>
               0.03 \<le> risk_score r \<and> risk_score r \<le> 1.02)))"
proof -
  have h: "list_all scorable four_incidents"
    using four_incidents_scorable by (simp add: list_all_iff)
  have rows: "map_sum id (map kmeans_features) (hybrid_risk_score four_incidents) =
     Inr [[1 / 25, 0, 0, 0], [6 / 25, 0, 0, 1], [7 / 25, 3 / 5, 0, 0], [47 / 50, 1, 1, 1]]"
    by code_simp
  have factors: "map_sum id (map attack_severity_factor) (hybrid_risk_score four_incidents) =
     Inr [2 / 5, 2 / 5, 2 / 5, 2 / 5]"
    by code_simp
  from risk_score_bounds [OF four_incidents_nonempty four_incidents_scorable]
    four_incidents_nonempty h rows factors
  show ?thesis by (intro conjI)
qed

section \<open>The cleaning\<close>

subsection \<open>Dropping duplicates\<close>

lemma drop_duplicates_from_set:
  "set (drop_duplicates_from seen df) = set df - set seen"
  by (induction df arbitrary: seen) auto

lemma drop_duplicates_from_distinct: "distinct (drop_duplicates_from seen df)"
  by (induction df arbitrary: seen) (auto simp: drop_duplicates_from_set)

lemma drop_duplicates_from_id:
  "distinct df \<Longrightarrow> set df \<inter> set seen = {} \<Longrightarrow> drop_duplicates_from seen df = df"
  by (induction df arbitrary: seen) auto

lemma drop_duplicates_id: "distinct df \<Longrightarrow> drop_duplicates df = df"
  by (simp add: drop_duplicates_def drop_duplicates_from_id)

lemma drop_duplicates_set [simp]: "set (drop_duplicates df) = set df"
  by (simp add: drop_duplicates_def drop_duplicates_from_set)

lemma drop_duplicates_distinct [simp]: "distinct (drop_duplicates df)"
  by (simp add: drop_duplicates_def drop_duplicates_from_distinct)

lemma drop_duplicates_from_snoc:
  "drop_duplicates_from seen (df @ [r]) =
     drop_duplicates_from seen df @ (if r \<in> set seen \<union> set df then [] else [r])"
  by (induction df arbitrary: seen) auto

lemma drop_duplicates_keeps_first: "drop_duplicates df = rev (remdups (rev df))"
  by (induction df rule: rev_induct)
    (auto simp: drop_duplicates_def drop_duplicates_from_snoc)

subsection \<open>Imputation\<close>

lemma fillna_Some [simp]: "fillna v (Some x) = Some x"
  by (simp add: fillna_def)

lemma fillna_None [simp]: "fillna v None = v"
  by (simp add: fillna_def)

lemma fillna_id: "c \<noteq> None \<Longrightarrow> fillna v c = c"
  by (cases c) simp_all

lemma basic_cleaning_imputed:
  "basic_cleaning df = map (imputed (drop_duplicates df)) (drop_duplicates df)"
  by (simp add: basic_cleaning_def Let_def imputed_def comp_def)

lemma year_gap_dedup: "drop_duplicates year_gap = take 3 year_gap"
  by (simp add: drop_duplicates_def year_gap_def incident_of_def)

lemma imputed_id: "no_missing r \<Longrightarrow> imputed dd r = r"
  by (simp add: imputed_def no_missing_def fillna_id)

lemma median_eq_None: "median col = None \<longleftrightarrow> (\<forall>c\<in>set col. c = None)"
proof -
  have "present col = [] \<longleftrightarrow> (\<forall>c\<in>set col. c = None)"
    by (induction col) (auto simp: present_def split: option.splits)
  moreover have "sort (present col) = [] \<longleftrightarrow> present col = []"
    by (metis length_sort length_0_conv)
  ultimately show ?thesis
    by (simp add: median_def Let_def)
qed

lemma basic_cleaning_scorable:
  assumes "\<exists>r\<in>set df. Financial_Loss r \<noteq> None"
    and "\<exists>r\<in>set df. Number_of_Affected_Users r \<noteq> None"
    and "\<exists>r\<in>set df. Incident_Resolution_Time r \<noteq> None"
  shows "\<forall>r\<in>set (basic_cleaning df). scorable r"
proof -
  let ?dd = "drop_duplicates df"
  have "median (map Financial_Loss ?dd) \<noteq> None"
    "median (map Number_of_Affected_Users ?dd) \<noteq> None"
    "median (map Incident_Resolution_Time ?dd) \<noteq> None"
    using assms by (auto simp: median_eq_None)
  then have "scorable (imputed ?dd r)" for r
    by (auto simp: scorable_def imputed_def fillna_def split: option.splits)
  then show ?thesis by (simp add: basic_cleaning_imputed)
qed

text \<open>
  A second cleaning is not a no-op on every output of the first: the imputation can
  make two rows equal.
\<close>

lemma second_cleaning_drops_a_row:
  "length (basic_cleaning one_gap) = 3 \<and> length (basic_cleaning (basic_cleaning one_gap)) = 2"
  by code_simp

subsection \<open>Claims about the cleaning\<close>

text \<open>
  C8, as amended. The cleaning first drops the full-row duplicates, keeping the first
  occurrence of every row, and then imputes every row of the de-duplicated table: a
  missing financial loss, number of affected users or resolution time becomes the median
  of the values its column has in the de-duplicated table (it stays missing when the
  column has none), a missing value of one of the six categorical columns becomes
  "Unknown", and the year is left as it is.
\<close>

theorem cleaning_drops_then_imputes:
  "drop_duplicates df = rev (remdups (rev df)) \<and>
   distinct (drop_duplicates df) \<and> set (drop_duplicates df) = set df \<and>
   basic_cleaning df = map (imputed (drop_duplicates df)) (drop_duplicates df)"
proof (intro conjI)
  show "drop_duplicates df = rev (remdups (rev df))" by (rule drop_duplicates_keeps_first)
  show "distinct (drop_duplicates df)" by (rule drop_duplicates_distinct)
  show "set (drop_duplicates df) = set df" by (rule drop_duplicates_set)
  show "basic_cleaning df = map (imputed (drop_duplicates df)) (drop_duplicates df)"
    by (rule basic_cleaning_imputed)
qed

theorem cleaning_drops_then_imputes_witness:
  "drop_duplicates year_gap = rev (remdups (rev year_gap)) \<and>
   basic_cleaning year_gap = map (imputed (drop_duplicates year_gap)) (drop_duplicates year_gap) \<and>
   length (basic_cleaning year_gap) = 3 \<and>
   map Financial_Loss (basic_cleaning year_gap) = [Some 1, Some 2, Some 3] \<and>
   map Country (basic_cleaning year_gap) = [Some ''India'', Some ''Unknown'', Some ''India'']"
  using cleaning_drops_then_imputes [of year_gap]
  by (simp add: year_gap_dedup)
     (simp add: year_gap_def incident_of_def imputed_def median_def present_def)

text \<open>
  C8 as stated fails on the numeric column \<^verbatim>\<open>Year\<close>: its median over the table is
  2021, and the missing year of the second row is still missing after the cleaning.
\<close>

theorem year_not_imputed:
  "median (map Year (drop_duplicates year_gap)) = Some 2021 \<and>
   map Year (basic_cleaning year_gap) = [Some 2020, None, Some 2022]"
  by (simp add: basic_cleaning_imputed year_gap_dedup)
     (simp add: year_gap_def incident_of_def imputed_def median_def present_def)

text \<open>
  C9. The cleaning returns a table without missing values and without full-row
  duplicates unchanged.
\<close>

theorem cleaning_idempotent:
  assumes "distinct df" and "\<forall>r\<in>set df. no_missing r"
  shows "basic_cleaning df = df"
proof -
  have "basic_cleaning df = map (imputed df) df"
    using assms(1) by (simp add: basic_cleaning_imputed drop_duplicates_id)
  also have "\<dots> = map (\<lambda>r. r) df"
    using assms(2) by (intro map_cong) (simp_all add: imputed_id)
  finally show ?thesis by simp
qed

theorem cleaning_idempotent_witness:
  "distinct four_incidents \<and> list_all no_missing four_incidents \<and>
   basic_cleaning four_incidents = four_incidents"
proof -
  have d: "distinct four_incidents"
    by (simp add: four_incidents_def incident_of_def)
  have m: "\<forall>r\<in>set four_incidents. no_missing r"
    by (simp add: four_incidents_def incident_of_def no_missing_def)
  from cleaning_idempotent [OF d m] d m show ?thesis
    unfolding list_all_iff by blast
qed

section \<open>The trainer's quantile labels\<close>

lemma sort_nth_nonneg:
  assumes "\<forall>x\<in>set xs. (0::real) \<le> x" and "i < length xs"
  shows "0 \<le> sort xs ! i"
proof -
  have "sort xs ! i \<in> set (sort xs)" using assms(2) by (simp del: set_sort)
  then show ?thesis using assms(1) by simp
qed

lemma sort_eq_Nil_iff: "sort xs = [] \<longleftrightarrow> xs = []"
  by (metis length_sort length_0_conv)

lemma quantile_nonneg:
  assumes "xs \<noteq> []" and "0 \<le> q" and "q \<le> 1" and "\<forall>x\<in>set xs. 0 \<le> x"
  shows "\<exists>v. quantile q (map Some xs) = Some v \<and> 0 \<le> v"
proof -
  define n where "n = length xs"
  define h where "h = q * real (n - 1)"
  define lo where "lo = nat \<lfloor>h\<rfloor>"
  define hi where "hi = min (lo + 1) (n - 1)"
  define vs where "vs = sort xs"
  have n: "0 < n" using assms(1) by (simp add: n_def)
  have h0: "0 \<le> h" using assms(2) by (simp add: h_def)
  have "h \<le> real (n - 1)"
    using assms(2,3) by (simp add: h_def mult_left_le_one_le)
  then have "\<lfloor>h\<rfloor> \<le> int (n - 1)" by (simp add: floor_le_iff)
  then have lo: "lo \<le> n - 1" by (simp add: lo_def)
  have lo_h: "real lo \<le> h" using h0 by (simp add: lo_def)
  have lo_n: "lo < n" and hi_n: "hi < n" and lo_hi: "lo \<le> hi"
    using lo n by (simp_all add: hi_def)
  have "sorted vs" by (simp add: vs_def)
  then have mono: "vs ! lo \<le> vs ! hi"
    using lo_hi hi_n by (simp add: sorted_nth_mono vs_def n_def)
  have "0 \<le> vs ! lo"
    using sort_nth_nonneg [OF assms(4)] lo_n by (simp add: vs_def n_def)
  moreover have "0 \<le> (vs ! hi - vs ! lo) * (h - real lo)"
    using mono lo_h by simp
  ultimately have "0 \<le> vs ! lo + (vs ! hi - vs ! lo) * (h - real lo)" by simp
  moreover have "quantile q (map Some xs) = Some (vs ! lo + (vs ! hi - vs ! lo) * (h - real lo))"
    using assms(1)
    by (simp add: quantile_def Let_def vs_def lo_def hi_def h_def n_def sort_eq_Nil_iff)
  ultimately show ?thesis by blast
qed

lemma quantile_interpolate:
  "xs \<noteq> [] \<Longrightarrow>
     quantile q (map Some xs) = Some (interpolate (sort xs) (q * real (length xs - 1)))"
  by (simp add: quantile_def interpolate_def Let_def sort_eq_Nil_iff)

lemma interpolate_bounds:
  assumes "sorted vs" and "0 \<le> h" and "h \<le> real (length vs - 1)" and "vs \<noteq> []"
  shows "vs ! nat \<lfloor>h\<rfloor> \<le> interpolate vs h"
    and "interpolate vs h \<le> vs ! min (nat \<lfloor>h\<rfloor> + 1) (length vs - 1)"
proof -
  define lo where "lo = nat \<lfloor>h\<rfloor>"
  define hi where "hi = min (lo + 1) (length vs - 1)"
  have "\<lfloor>h\<rfloor> \<le> int (length vs - 1)" using assms(3) by (simp add: floor_le_iff)
  then have lo: "lo \<le> length vs - 1" by (simp add: lo_def)
  have n: "0 < length vs" using assms(4) by simp
  have hi_n: "hi < length vs" and lo_hi: "lo \<le> hi" using lo n unfolding hi_def by arith+
  have mono: "vs ! lo \<le> vs ! hi" using assms(1) lo_hi hi_n by (rule sorted_nth_mono)
  have f0: "0 \<le> h - real lo" using assms(2) by (simp add: lo_def)
  have "h < real_of_int \<lfloor>h\<rfloor> + 1" by linarith
  moreover have "real lo = real_of_int \<lfloor>h\<rfloor>" using assms(2) by (simp add: lo_def)
  ultimately have f1: "h - real lo \<le> 1" by linarith
  have eq: "interpolate vs h = vs ! lo + (vs ! hi - vs ! lo) * (h - real lo)"
    by (simp add: interpolate_def Let_def lo_def hi_def)
  have "0 \<le> (vs ! hi - vs ! lo) * (h - real lo)" using mono f0 by simp
  then show "vs ! nat \<lfloor>h\<rfloor> \<le> interpolate vs h" unfolding eq lo_def [symmetric] by simp
  have "(vs ! hi - vs ! lo) * (h - real lo) \<le> (vs ! hi - vs ! lo) * 1"
    using mono f1 by (intro mult_left_mono) simp_all
  then show "interpolate vs h \<le> vs ! min (nat \<lfloor>h\<rfloor> + 1) (length vs - 1)"
    unfolding eq lo_def [symmetric] hi_def [symmetric] by simp
qed

lemma interpolate_mono:
  assumes "sorted vs" and "vs \<noteq> []" and "0 \<le> h1" and "h1 \<le> h2"
    and "h2 \<le> real (length vs - 1)"
  shows "interpolate vs h1 \<le> interpolate vs h2"
proof -
  define l1 where "l1 = nat \<lfloor>h1\<rfloor>"
  define l2 where "l2 = nat \<lfloor>h2\<rfloor>"
  have h2: "0 \<le> h2" using assms(3,4) by simp
  have "\<lfloor>h1\<rfloor> \<le> \<lfloor>h2\<rfloor>" using assms(4) by (rule floor_mono)
  then have l12: "l1 \<le> l2" by (simp add: l1_def l2_def)
  have "\<lfloor>h2\<rfloor> \<le> int (length vs - 1)" using assms(5) by (simp add: floor_le_iff)
  then have l2n: "l2 \<le> length vs - 1" by (simp add: l2_def)
  have n: "0 < length vs" using assms(2) by simp
  show ?thesis
  proof (cases "l1 = l2")
    case True
    define hi where "hi = min (l1 + 1) (length vs - 1)"
    have "hi < length vs" "l1 \<le> hi" using l2n True n unfolding hi_def by arith+
    then have mono: "vs ! l1 \<le> vs ! hi" using assms(1) by (simp add: sorted_nth_mono)
    have "interpolate vs h1 = vs ! l1 + (vs ! hi - vs ! l1) * (h1 - real l1)"
      and "interpolate vs h2 = vs ! l1 + (vs ! hi - vs ! l1) * (h2 - real l1)"
      using True by (simp_all add: interpolate_def Let_def l1_def l2_def hi_def)
    moreover have "(vs ! hi - vs ! l1) * (h1 - real l1) \<le> (vs ! hi - vs ! l1) * (h2 - real l1)"
      using mono assms(4) by (intro mult_left_mono) simp_all
    ultimately show ?thesis by simp
  next
    case False
    with l12 have lt: "l1 + 1 \<le> l2" by simp
    have h1n: "h1 \<le> real (length vs - 1)" using assms(4,5) by simp
    have "interpolate vs h1 \<le> vs ! min (l1 + 1) (length vs - 1)"
      using interpolate_bounds(2) [OF assms(1,3) h1n assms(2)] by (simp add: l1_def)
    also have "min (l1 + 1) (length vs - 1) = l1 + 1" using lt l2n by simp
    also have "vs ! (l1 + 1) \<le> vs ! l2"
      using assms(1) lt l2n n by (intro sorted_nth_mono) simp_all
    also have "vs ! l2 \<le> interpolate vs h2"
      using interpolate_bounds(1) [OF assms(1) h2 assms(5,2)] by (simp add: l2_def)
    finally show ?thesis .
  qed
qed

lemma quantile_mono:
  assumes "xs \<noteq> []" and "0 \<le> p" and "p \<le> q" and "q \<le> 1"
    and "quantile p (map Some xs) = Some a" and "quantile q (map Some xs) = Some b"
  shows "a \<le> b"
proof -
  have "interpolate (sort xs) (p * real (length xs - 1)) \<le>
        interpolate (sort xs) (q * real (length xs - 1))"
  proof (rule interpolate_mono)
    show "sorted (sort xs)" by simp
    show "sort xs \<noteq> []" using assms(1) by (simp add: sort_eq_Nil_iff)
    show "0 \<le> p * real (length xs - 1)" using assms(2) by simp
    show "p * real (length xs - 1) \<le> q * real (length xs - 1)"
      using assms(3) by (simp add: mult_right_mono)
    show "q * real (length xs - 1) \<le> real (length (sort xs) - 1)"
      using assms(2,3,4) by (simp add: mult_left_le_one_le)
  qed
  then show ?thesis using assms(5,6) by (simp add: quantile_interpolate [OF assms(1)])
qed

lemma cut_Inr:
  "- 1 < a \<Longrightarrow> a < b \<Longrightarrow> cut col (Some a) (Some b) = Inr (map (cut_label a b) col)"
  by (simp add: cut_def)

lemma cut_Inl: "\<not> a < b \<Longrightarrow> cut col (Some a) (Some b) = Inl ValueError"
  by (auto simp: cut_def)

lemma cut_label_bins:
  assumes "0 \<le> x" and "0 \<le> a" and "a < b"
  shows "cut_label a b (Some x) =
           Some (if x \<le> a then ''Low'' else if x \<le> b then ''Medium'' else ''High'')"
  using assms by (auto simp: cut_label_def Let_def)

lemma label_rank_bins:
  "label_rank (Some (if x \<le> a then ''Low'' else if x \<le> b then ''Medium'' else ''High'')) =
     (if x \<le> a then 0 else if x \<le> b then 1 else 2)"
  by (simp add: label_rank_def)

subsection \<open>The two runs of \<^verbatim>\<open>add_severity_label\<close>\<close>

text \<open>
  What \<^verbatim>\<open>add_severity_label\<close> does on a non-empty table with non-negative numbers of
  affected users, where \<open>q33\<close> and \<open>q66\<close> are the 33rd and 66th percentiles of that
  column. If \<open>q33 < q66\<close>, it does what its docstring says: every row gets exactly one
  label, Low for a value up to \<open>q33\<close>, Medium for a value above \<open>q33\<close> and up to
  \<open>q66\<close>, High for a value above \<open>q66\<close>, and a row with more affected users never
  has a lower label than a row with fewer. In the only other case, \<open>q33 = q66\<close>, it
  raises ValueError.
\<close>

theorem quantile_bins:
  assumes "df \<noteq> []" and "\<forall>r\<in>set df. \<exists>x. affected_users r = Some x \<and> 0 \<le> x"
  shows "\<exists>q1 q2.
           quantile 0.33 (map affected_users df) = Some q1 \<and>
           quantile 0.66 (map affected_users df) = Some q2 \<and>
           q1 \<le> q2 \<and>
           (q1 < q2 \<longrightarrow>
              (\<exists>out. add_severity_label df = Inr out \<and> length out = length df \<and>
                 (\<forall>i<length df. \<exists>x. affected_users (df ! i) = Some x \<and>
                    out ! i = (df ! i)\<lparr>Severity :=
                      Some (if x \<le> q1 then ''Low'' else if x \<le> q2 then ''Medium'' else ''High'')\<rparr>) \<and>
                 (\<forall>i<length df. \<forall>j<length df.
                    the (affected_users (df ! i)) \<le> the (affected_users (df ! j)) \<longrightarrow>
                    label_rank (Severity (out ! i)) \<le> label_rank (Severity (out ! j))))) \<and>
           (\<not> q1 < q2 \<longrightarrow> add_severity_label df = Inl ValueError)"
proof -
  define xs where "xs = map (the \<circ> affected_users) df"
  have col: "map affected_users df = map Some xs"
    unfolding xs_def using assms(2) by (induction df) auto
  have ne: "xs \<noteq> []" using assms(1) by (simp add: xs_def)
  have lenx: "length xs = length df" by (simp add: xs_def)
  have nonneg: "\<forall>x\<in>set xs. 0 \<le> x" using assms(2) by (auto simp: xs_def)
  from quantile_nonneg [OF ne _ _ nonneg, of "0.33"] obtain q1 where
    q1: "quantile 0.33 (map Some xs) = Some q1" "0 \<le> q1" by auto
  from quantile_nonneg [OF ne _ _ nonneg, of "0.66"] obtain q2 where
    q2: "quantile 0.66 (map Some xs) = Some q2" "0 \<le> q2" by auto
  have le: "q1 \<le> q2"
    using quantile_mono [OF ne _ _ _ q1(1) q2(1)] by simp
  have fail: "add_severity_label df = Inl ValueError" if "\<not> q1 < q2"
    using that q1(1) q2(1) by (simp add: add_severity_label_def col cut_Inl)
  have ok: "\<exists>out. add_severity_label df = Inr out \<and> length out = length df \<and>
                 (\<forall>i<length df. \<exists>x. affected_users (df ! i) = Some x \<and>
                    out ! i = (df ! i)\<lparr>Severity :=
                      Some (if x \<le> q1 then ''Low'' else if x \<le> q2 then ''Medium'' else ''High'')\<rparr>) \<and>
                 (\<forall>i<length df. \<forall>j<length df.
                    the (affected_users (df ! i)) \<le> the (affected_users (df ! j)) \<longrightarrow>
                    label_rank (Severity (out ! i)) \<le> label_rank (Severity (out ! j)))"
    if lt: "q1 < q2"
  proof -
    define out where
      "out = map (\<lambda>(r, l). r\<lparr>Severity := l\<rparr>) (zip df (map (cut_label q1 q2) (map Some xs)))"
    have run: "add_severity_label df = Inr out"
      using lt q1 q2(1) by (simp add: add_severity_label_def col cut_Inr out_def)
    have len: "length out = length df" by (simp add: out_def lenx)
    have row: "affected_users (df ! i) = Some (xs ! i) \<and>
               out ! i = (df ! i)\<lparr>Severity :=
                 Some (if xs ! i \<le> q1 then ''Low'' else if xs ! i \<le> q2 then ''Medium''
                       else ''High'')\<rparr>" if i: "i < length df" for i
    proof -
      have a: "affected_users (df ! i) = Some (xs ! i)"
        using col i by (metis length_map nth_map)
      have "0 \<le> xs ! i" using nonneg i by (simp add: lenx)
      then have "cut_label q1 q2 (Some (xs ! i)) =
                   Some (if xs ! i \<le> q1 then ''Low'' else if xs ! i \<le> q2 then ''Medium''
                         else ''High'')"
        using q1(2) lt by (rule cut_label_bins)
      then show ?thesis using a i by (simp add: out_def lenx)
    qed
    have mono: "label_rank (Severity (out ! i)) \<le> label_rank (Severity (out ! j))"
      if i: "i < length df" and j: "j < length df"
        and le: "the (affected_users (df ! i)) \<le> the (affected_users (df ! j))" for i j
    proof -
      have le': "xs ! i \<le> xs ! j" using le row [OF i] row [OF j] by simp
      have "Severity (out ! i) =
              Some (if xs ! i \<le> q1 then ''Low'' else if xs ! i \<le> q2 then ''Medium'' else ''High'')"
        and "Severity (out ! j) =
              Some (if xs ! j \<le> q1 then ''Low'' else if xs ! j \<le> q2 then ''Medium'' else ''High'')"
        using row [OF i] row [OF j] by simp_all
      then show ?thesis
        using le' lt by (simp only: label_rank_bins) auto
    qed
    from run len row mono show ?thesis by blast
  qed
  from q1(1) q2(1) le ok fail show ?thesis unfolding col by blast
qed

theorem quantile_bins_witness:
  "three_rows \<noteq> [] \<and>
   map affected_users three_rows = [Some 100, Some 200, Some 300] \<and>
   map Severity (projr (add_severity_label three_rows)) =
     [Some ''Low'', Some ''Medium'', Some ''High''] \<and>
   (\<exists>q1 q2.
           quantile 0.33 (map affected_users three_rows) = Some q1 \<and>
           quantile 0.66 (map affected_users three_rows) = Some q2 \<and>
           q1 \<le> q2 \<and>
           (q1 < q2 \<longrightarrow>
              (\<exists>out. add_severity_label three_rows = Inr out \<and> length out = length three_rows \<and>
                 (\<forall>i<length three_rows. \<exists>x. affected_users (three_rows ! i) = Some x \<and>
                    out ! i = (three_rows ! i)\<lparr>Severity :=
                      Some (if x \<le> q1 then ''Low'' else if x \<le> q2 then ''Medium'' else ''High'')\<rparr>) \<and>
                 (\<forall>i<length three_rows. \<forall>j<length three_rows.
                    the (affected_users (three_rows ! i)) \<le> the (affected_users (three_rows ! j)) \<longrightarrow>
                    label_rank (Severity (out ! i)) \<le> label_rank (Severity (out ! j))))) \<and>
           (\<not> q1 < q2 \<longrightarrow> add_severity_label three_rows = Inl ValueError))"
proof -
  have h1: "three_rows \<noteq> []" by (simp add: three_rows_def three_incidents_def)
  have col: "map affected_users three_rows = [Some 100, Some 200, Some 300]"
    by (simp add: three_rows_def three_incidents_def table_row_def incident_of_def affected_users_def)
  have h2: "\<forall>r\<in>set three_rows. \<exists>x. affected_users r = Some x \<and> 0 \<le> x"
    by (simp add: three_rows_def three_incidents_def table_row_def incident_of_def affected_users_def)
  have run: "map Severity (projr (add_severity_label three_rows)) =
     [Some ''Low'', Some ''Medium'', Some ''High'']"
    by (simp add: add_severity_label_def three_rows_def three_incidents_def table_row_def incident_of_def
        affected_users_def quantile_def present_def cut_def cut_label_def Let_def)
  from quantile_bins [OF h1 h2] h1 col run show ?thesis by blast
qed

subsection \<open>Claim about the quantile labels\<close>

text \<open>
  C5. The quantile binning is to give every row of a table with non-negative numbers of
  affected users exactly one of the labels Low, Medium and High, as the docstring of
  \<^verbatim>\<open>add_severity_label\<close> says too. The code does not on a table whose two percentiles
  coincide: three of the four rows below have 100 affected users, both percentiles are
  100, \<^verbatim>\<open>pd.cut\<close> rejects the repeated bin edge, and no row is labelled. The code
  passes the percentiles on as bin edges without looking at them.
\<close>

theorem tied_users_not_labelled:
  "map affected_users tied_users = [Some 100, Some 100, Some 100, Some 250] \<and>
   quantile 0.33 (map affected_users tied_users) = Some 100 \<and>
   quantile 0.66 (map affected_users tied_users) = Some 100 \<and>
   add_severity_label tied_users = Inl ValueError"
  by (simp add: add_severity_label_def tied_users_def table_row_def incident_of_def
      affected_users_def quantile_def present_def cut_def Let_def)

section \<open>The severity tiers\<close>

lemma argsort_length [simp]: "length (argsort xs) = length xs"
  by (simp add: argsort_def)

lemma argsort_set [simp]: "set (argsort xs) = {0..<length xs}"
  by (simp add: argsort_def)

lemma argsort_distinct [simp]: "distinct (argsort xs)"
  by (simp add: argsort_def)

lemma argsort_sorted: "sorted (map (\<lambda>i. xs ! i) (argsort xs))"
  by (simp add: argsort_def)

lemma argsort_nth_mono:
  assumes "i \<le> j" and "j < length xs"
  shows "xs ! (argsort xs ! i) \<le> xs ! (argsort xs ! j)"
proof -
  have "map (\<lambda>i. xs ! i) (argsort xs) ! i \<le> map (\<lambda>i. xs ! i) (argsort xs) ! j"
    using argsort_sorted assms by (intro sorted_nth_mono) simp_all
  then show ?thesis using assms by simp
qed

lemma tier_rank_nth: "j < 4 \<Longrightarrow> tier_rank (Some (tiers ! j)) = j"
proof -
  assume "j < 4"
  then consider "j = 0" | "j = 1" | "j = 2" | "j = 3" by linarith
  then show ?thesis by cases (simp_all add: tier_rank_def tiers_def)
qed

text \<open>The dictionary of step 7 is the pairing of the sorted cluster ids with the tiers.\<close>

lemma four_list: "length ord = 4 \<Longrightarrow> ord = [ord ! 0, ord ! 1, ord ! 2, ord ! 3]"
proof -
  assume "length ord = 4"
  then have "ord = map (\<lambda>i. ord ! i) [0..<4]" by (metis map_nth)
  also have "[0..<4] = [0, 1, 2, 3]" by (simp add: upt_rec)
  finally show ?thesis by simp
qed

lemma severity_labels_zip:
  assumes "length ord = 4"
  shows "[(ord ! 0, ''Low''), (ord ! 1, ''Medium''), (ord ! 2, ''High''), (ord ! 3, ''Critical'')]
           = zip ord tiers"
proof -
  have "zip ord tiers = zip [ord ! 0, ord ! 1, ord ! 2, ord ! 3] tiers"
    using four_list [OF assms] by simp
  then show ?thesis by (simp add: tiers_def)
qed

lemma map_of_zip_nth_distinct:
  assumes "distinct ks" and "length ks = length vs" and "j < length ks"
  shows "map_of (zip ks vs) (ks ! j) = Some (vs ! j)"
  using assms by (simp add: map_of_zip_nth)

lemma severity_labels_lookup:
  assumes "length ord = 4" and "distinct ord" and "k \<in> set ord"
  shows "\<exists>j<4. ord ! j = k \<and> map_of (zip ord tiers) k = Some (tiers ! j)"
proof -
  from assms(3) obtain j where j: "j < length ord" "ord ! j = k"
    by (auto simp: in_set_conv_nth)
  have "map_of (zip ord tiers) (ord ! j) = Some (tiers ! j)"
    using assms(1,2) j(1) by (intro map_of_zip_nth) (simp_all add: tiers_def)
  with j assms(1) show ?thesis by auto
qed


lemma kmeans_severity_run:
  assumes "km (map kmeans_features sc) = Inr (labels, centers)"
    and "length labels = length sc" and "length centers = 4"
  shows "kmeans_severity km sc =
           Inr (map (\<lambda>(r, k). \<lparr> scored_columns = r, severity_cluster = k,
                       Severity = map_of (zip (argsort (map row_mean centers)) tiers) k \<rparr>)
                  (zip sc labels))"
proof -
  have "length (argsort (map row_mean centers)) = 4" using assms(3) by simp
  from severity_labels_zip [OF this] show ?thesis
    using assms by (simp add: kmeans_severity_def Let_def)
qed

lemma tier_of_cluster:
  assumes "length centers = 4" and "k < 4"
  shows "\<exists>j<4. argsort (map row_mean centers) ! j = k \<and>
           map_of (zip (argsort (map row_mean centers)) tiers) k = Some (tiers ! j)"
  using assms by (intro severity_labels_lookup) simp_all

lemma four_scored_features:
  "map kmeans_features four_scored =
     [[1 / 25, 0, 0, 0], [6 / 25, 0, 0, 1], [7 / 25, 3 / 5, 0, 0], [47 / 50, 1, 1, 1]]"
  by code_simp

subsection \<open>Claims about the severity tiers\<close>

text \<open>
  C3, as amended. When KMeans returns a cluster id below four for every row and four
  centres, every row gets one of the tiers Low, Medium, High, Critical, two rows get the
  same tier exactly when they are in the same cluster, all four tiers occur when every
  cluster id is used, and the tiers are ascending in the mean of the four coordinates
  of the cluster centre (risk score and the three normalised columns), not in the mean
  risk score.
\<close>

theorem tiers_follow_centre_means:
  assumes "km (map kmeans_features sc) = Inr (labels, centers)"
    and "length labels = length sc" and "length centers = 4" and "set labels \<subseteq> {0..<4}"
  shows "\<exists>out. kmeans_severity km sc = Inr out \<and> length out = length sc \<and>
           (\<forall>i<length sc.
              scored_columns (out ! i) = sc ! i \<and> severity_cluster (out ! i) = labels ! i \<and>
              Severity (out ! i) \<in> Some ` set tiers) \<and>
           (set labels = {0..<4} \<longrightarrow> Severity ` set out = Some ` set tiers) \<and>
           (\<forall>i<length sc. \<forall>j<length sc.
              (Severity (out ! i) = Severity (out ! j) \<longleftrightarrow> labels ! i = labels ! j) \<and>
              (tier_rank (Severity (out ! i)) \<le> tier_rank (Severity (out ! j)) \<longrightarrow>
                 row_mean (centers ! (labels ! i)) \<le> row_mean (centers ! (labels ! j))))"
proof -
  define cm where "cm = map row_mean centers"
  define ord where "ord = argsort cm"
  define tier where "tier = (\<lambda>k. map_of (zip ord tiers) k)"
  define out where
    "out = map (\<lambda>(r, k). \<lparr> scored_columns = r, severity_cluster = k, Severity = tier k \<rparr>)
             (zip sc labels)"
  have run: "kmeans_severity km sc = Inr out"
    using kmeans_severity_run [of km sc labels centers] assms(1-3)
    by (simp add: out_def tier_def ord_def cm_def)
  have len: "length out = length sc" using assms(2) by (simp add: out_def)
  have nth: "out ! i = \<lparr> scored_columns = sc ! i, severity_cluster = labels ! i,
                         Severity = tier (labels ! i) \<rparr>" if "i < length sc" for i
    using that assms(2) by (simp add: out_def)
  have lab: "labels ! i < 4" if "i < length sc" for i
    using that assms(2,4) by (metis atLeastLessThan_iff nth_mem subsetD)
  have pos: "\<exists>j<4. ord ! j = k \<and> tier k = Some (tiers ! j)" if "k < 4" for k
    using tier_of_cluster [OF assms(3) that] by (simp add: tier_def ord_def cm_def)
  have ord_props: "length ord = 4" "distinct ord"
    using assms(3) by (simp_all add: ord_def cm_def)
  have tiers_props: "length tiers = 4" "distinct tiers"
    by (simp_all add: tiers_def)
  have rows: "scored_columns (out ! i) = sc ! i \<and> severity_cluster (out ! i) = labels ! i \<and>
              Severity (out ! i) \<in> Some ` set tiers" if i: "i < length sc" for i
  proof -
    from pos [OF lab [OF i]] obtain j where "j < 4" "tier (labels ! i) = Some (tiers ! j)"
      by blast
    then have "tier (labels ! i) \<in> Some ` set tiers"
      using tiers_props(1) by simp
    then show ?thesis using nth [OF i] by simp
  qed
  have all4: "Severity ` set out = Some ` set tiers" if full: "set labels = {0..<4}"
  proof
    show "Severity ` set out \<subseteq> Some ` set tiers"
    proof
      fix t assume "t \<in> Severity ` set out"
      then obtain i where "i < length sc" "t = Severity (out ! i)"
        using len by (auto simp: in_set_conv_nth)
      then show "t \<in> Some ` set tiers" using rows by simp
    qed
    show "Some ` set tiers \<subseteq> Severity ` set out"
    proof
      fix t assume "t \<in> Some ` set tiers"
      then obtain j where j: "j < 4" "t = Some (tiers ! j)"
        using tiers_props(1) by (auto simp: in_set_conv_nth)
      have "ord ! j < 4"
        using j(1) assms(3) ord_props(1) by (metis argsort_set atLeastLessThan_iff cm_def
            length_map nth_mem ord_def)
      then have "ord ! j \<in> set labels" using full by simp
      then obtain i where i: "i < length sc" "labels ! i = ord ! j"
        using assms(2) by (auto simp: in_set_conv_nth)
      from pos [OF lab [OF i(1)]] obtain j' where
        j': "j' < 4" "ord ! j' = labels ! i" "tier (labels ! i) = Some (tiers ! j')" by blast
      have "j' = j"
        using j' i(2) j(1) ord_props by (simp add: nth_eq_iff_index_eq)
      then have "Severity (out ! i) = t" using nth [OF i(1)] j' j(2) by simp
      moreover have "out ! i \<in> set out" using i(1) len by simp
      ultimately show "t \<in> Severity ` set out" by blast
    qed
  qed
  have pairs: "(Severity (out ! i) = Severity (out ! j) \<longleftrightarrow> labels ! i = labels ! j) \<and>
               (tier_rank (Severity (out ! i)) \<le> tier_rank (Severity (out ! j)) \<longrightarrow>
                 row_mean (centers ! (labels ! i)) \<le> row_mean (centers ! (labels ! j)))"
    if i: "i < length sc" and j: "j < length sc" for i j
  proof -
    from pos [OF lab [OF i]] obtain a where
      a: "a < 4" "ord ! a = labels ! i" "tier (labels ! i) = Some (tiers ! a)" by blast
    from pos [OF lab [OF j]] obtain b where
      b: "b < 4" "ord ! b = labels ! j" "tier (labels ! j) = Some (tiers ! b)" by blast
    have sev: "Severity (out ! i) = Some (tiers ! a)" "Severity (out ! j) = Some (tiers ! b)"
      using nth [OF i] nth [OF j] a(3) b(3) by simp_all
    have "tiers ! a = tiers ! b \<longleftrightarrow> a = b"
      using a(1) b(1) tiers_props by (simp add: nth_eq_iff_index_eq)
    moreover have "ord ! a = ord ! b \<longleftrightarrow> a = b"
      using a(1) b(1) ord_props by (simp add: nth_eq_iff_index_eq)
    ultimately have eq: "Severity (out ! i) = Severity (out ! j) \<longleftrightarrow> labels ! i = labels ! j"
      using sev a(2) b(2) by simp
    have mono: "row_mean (centers ! (labels ! i)) \<le> row_mean (centers ! (labels ! j))"
      if "tier_rank (Severity (out ! i)) \<le> tier_rank (Severity (out ! j))"
    proof -
      from that have "a \<le> b" using sev a(1) b(1) by (simp add: tier_rank_nth)
      then have "cm ! (ord ! a) \<le> cm ! (ord ! b)"
        unfolding ord_def using b(1) assms(3) by (intro argsort_nth_mono) (simp_all add: cm_def)
      then show ?thesis
        using a(2) b(2) lab [OF i] lab [OF j] assms(3) by (simp add: cm_def)
    qed
    from eq mono show ?thesis by blast
  qed
  from run len rows all4 pairs show ?thesis by blast
qed

theorem tiers_follow_centre_means_witness:
  "each_point_own_cluster (map kmeans_features four_scored) =
     Inr ([0, 1, 2, 3], map kmeans_features four_scored) \<and>
   length [0, 1, 2, 3 :: nat] = length four_scored \<and>
   length (map kmeans_features four_scored) = 4 \<and>
   set [0, 1, 2, 3 :: nat] \<subseteq> {0..<4} \<and>
   (\<exists>out. kmeans_severity each_point_own_cluster four_scored = Inr out \<and>
           length out = length four_scored \<and>
           map Severity out = [Some ''Low'', Some ''High'', Some ''Medium'', Some ''Critical''] \<and>
           Severity ` set out = Some ` set tiers)"
proof -
  have "length (map kmeans_features four_scored) = 4"
    by (simp only: four_scored_features) simp
  then have len: "length four_scored = 4" by simp
  have h1: "each_point_own_cluster (map kmeans_features four_scored) =
     Inr ([0, 1, 2, 3], map kmeans_features four_scored)"
    by (simp add: each_point_own_cluster_def len upt_rec)
  have h2: "length [0, 1, 2, 3 :: nat] = length four_scored" by (simp add: len)
  have h3: "length (map kmeans_features four_scored) = 4" by (simp add: len)
  have full: "set [0, 1, 2, 3 :: nat] = {0..<4}" by auto
  then have h4: "set [0, 1, 2, 3 :: nat] \<subseteq> {0..<4}" by simp
  have run: "map_sum id (map Severity) (kmeans_severity each_point_own_cluster four_scored) =
     Inr [Some ''Low'', Some ''High'', Some ''Medium'', Some ''Critical'']"
    by code_simp
  from tiers_follow_centre_means [of each_point_own_cluster four_scored "[0, 1, 2, 3]"
      "map kmeans_features four_scored", OF h1 h2 h3 h4] obtain out where
    out: "kmeans_severity each_point_own_cluster four_scored = Inr out" and
    lout: "length out = length four_scored" and
    all4: "set [0, 1, 2, 3 :: nat] = {0..<4} \<longrightarrow> Severity ` set out = Some ` set tiers"
    by blast
  from all4 full have present4: "Severity ` set out = Some ` set tiers" by blast
  from run out have sev: "map Severity out =
      [Some ''Low'', Some ''High'', Some ''Medium'', Some ''Critical'']"
    by simp
  have ex: "\<exists>out. kmeans_severity each_point_own_cluster four_scored = Inr out \<and>
           length out = length four_scored \<and>
           map Severity out = [Some ''Low'', Some ''High'', Some ''Medium'', Some ''Critical''] \<and>
           Severity ` set out = Some ` set tiers"
  proof (intro exI conjI)
    show "kmeans_severity each_point_own_cluster four_scored = Inr out" by (rule out)
    show "length out = length four_scored" by (rule lout)
    show "map Severity out = [Some ''Low'', Some ''High'', Some ''Medium'', Some ''Critical'']"
      by (rule sev)
    show "Severity ` set out = Some ` set tiers" by (rule present4)
  qed
  show ?thesis
  proof (intro conjI)
    show "each_point_own_cluster (map kmeans_features four_scored) =
      Inr ([0, 1, 2, 3], map kmeans_features four_scored)" by (rule h1)
    show "length [0, 1, 2, 3 :: nat] = length four_scored" by (rule h2)
    show "length (map kmeans_features four_scored) = 4" by (rule h3)
    show "set [0, 1, 2, 3 :: nat] \<subseteq> {0..<4}" by (rule h4)
    show "\<exists>out. kmeans_severity each_point_own_cluster four_scored = Inr out \<and>
           length out = length four_scored \<and>
           map Severity out = [Some ''Low'', Some ''High'', Some ''Medium'', Some ''Critical''] \<and>
           Severity ` set out = Some ` set tiers" by (rule ex)
  qed
qed

text \<open>
  C3 as stated fails on four different rows, each a cluster of its own: the row with
  the long resolution time has the larger centre mean and becomes High with risk score
  0.24, the row with the larger loss becomes Medium with risk score 0.28.
\<close>

theorem tier_means_not_monotone:
  "map_sum id (map Severity) (preprocess_data each_point_own_cluster four_incidents) =
     Inr [Some ''Low'', Some ''High'', Some ''Medium'', Some ''Critical''] \<and>
   map_sum id tier_means (preprocess_data each_point_own_cluster four_incidents) =
     Inr [1 / 25, 7 / 25, 6 / 25, 47 / 50] \<and>
   map_sum id (sorted \<circ> tier_means) (preprocess_data each_point_own_cluster four_incidents) =
     Inr False"
  by code_simp

section \<open>The predictor\<close>

subsection \<open>Encoding one record\<close>

lemma encode_item_total:
  assumes "\<forall>classes\<in>snd ` set encoders. classes \<noteq> []"
  shows "\<exists>v'. encode_item encoders (k, v) = Inr (k, v')"
proof (cases "map_of encoders k")
  case None
  then show ?thesis by (simp add: encode_item_def)
next
  case (Some classes)
  then have "(k, classes) \<in> set encoders" by (rule map_of_SomeD)
  then have "classes \<noteq> []" using assms by force
  then obtain c cs where "classes = c # cs" by (cases classes) auto
  with Some show ?thesis by (simp add: encode_item_def)
qed

lemma encode_item_value:
  "encode_item encoders (k, v) = Inr kv \<Longrightarrow> kv = (k, encoded_value encoders k v)"
  by (auto simp: encode_item_def encoded_value_def split: option.splits if_splits list.splits)

lemma encode_input_row:
  assumes "\<forall>classes\<in>snd ` set encoders. classes \<noteq> []"
  shows "encode_input d encoders = Inr (map (\<lambda>(k, v). (k, encoded_value encoders k v)) d)"
proof -
  have "list_all2 (\<lambda>x y. encode_item encoders x = Inr y) d
          (map (\<lambda>(k, v). (k, encoded_value encoders k v)) d)"
  proof (induction d)
    case Nil
    then show ?case by simp
  next
    case (Cons kv d)
    obtain k v where kv: "kv = (k, v)" by (cases kv)
    from encode_item_total [OF assms, of k v] encode_item_value [of encoders k v]
    have "encode_item encoders (k, v) = Inr (k, encoded_value encoders k v)" by auto
    with Cons kv show ?case by simp
  qed
  then show ?thesis by (simp add: encode_input_def those_res_map_iff)
qed

lemma map_of_encoded:
  "map_of (map (\<lambda>(k, v). (k, encoded_value encoders k v)) d) k =
     map_option (encoded_value encoders k) (map_of d k)"
  by (induction d) auto


lemma select_columns_Inr:
  assumes "\<forall>f\<in>set names. map_of row f \<noteq> None"
  shows "select_columns names row = Inr (map (\<lambda>f. the (map_of row f)) names)"
proof -
  have "list_all2 (\<lambda>f v. (case map_of row f of None \<Rightarrow> Inl KeyError | Some v \<Rightarrow> Inr v) = Inr v)
          names (map (\<lambda>f. the (map_of row f)) names)"
    using assms by (induction names) auto
  then show ?thesis by (simp add: select_columns_def those_res_map_iff)
qed

lemma features_split: "set features = set categorical_features \<union> set numeric_features"
  by (auto simp: features_def categorical_features_def numeric_features_def)

lemma categorical_features_encoded:
  "f \<in> set categorical_features \<Longrightarrow> f \<in> set (map fst categorical_cols)"
  by (auto simp: categorical_features_def categorical_cols_def)

lemma numeric_features_not_encoded:
  "f \<in> set numeric_features \<Longrightarrow> f \<notin> set (map fst categorical_cols)"
  by (auto simp: numeric_features_def categorical_cols_def)

lemma encoded_value_number:
  assumes keys: "map fst encoders = map fst categorical_cols"
    and rec: "raw_record d" and f: "f \<in> set features"
  shows "\<exists>v. map_of d f = Some v \<and> is_number (encoded_value encoders f v)"
proof -
  from f consider "f \<in> set categorical_features" | "f \<in> set numeric_features"
    using features_split by auto
  then show ?thesis
  proof cases
    case 1
    then have "has_field d f" using rec by (simp add: raw_record_def list_all_iff)
    then obtain v where v: "map_of d f = Some v" by (auto simp: has_field_def)
    have "f \<in> fst ` set encoders"
      using categorical_features_encoded [OF 1] keys by (metis set_map)
    then obtain classes where "map_of encoders f = Some classes"
      by (metis map_of_eq_None_iff not_Some_eq)
    then have "is_number (encoded_value encoders f v)"
      by (simp add: encoded_value_def is_number_def)
    with v show ?thesis by blast
  next
    case 2
    then have "has_number d f" using rec by (simp add: raw_record_def list_all_iff)
    then obtain v where v: "map_of d f = Some v" "is_number v"
      by (auto simp: has_number_def split: option.splits)
    have "f \<notin> fst ` set encoders"
      using numeric_features_not_encoded [OF 2] keys by (metis set_map)
    then have "map_of encoders f = None" by (simp add: map_of_eq_None_iff)
    then have "encoded_value encoders f v = v" by (simp add: encoded_value_def)
    with v show ?thesis by simp
  qed
qed

text \<open>The run of \<^verbatim>\<open>predict_severity\<close> on trained artifacts and a raw record.\<close>

lemma predict_severity_run:
  assumes "trained st" and "raw_record d"
  shows "\<exists>model (md :: metadata) labels k.
           load_model_and_metadata st = Inr (model, label_encoders md, features) \<and>
           encode_input d (label_encoders md) =
             Inr (map (\<lambda>(k, v). (k, encoded_value (label_encoders md) k v)) d) \<and>
           map_of (label_encoders md) ''Severity'' = Some labels \<and>
           set labels \<subseteq> set severity_vocabulary \<and>
           k < length labels \<and>
           predict_severity st d = Inr (labels ! k)"
proof -
  from assms(1) obtain model md labels where
    m: "severity_model_pkl st = Some model" and
    md: "model_features_json st = Some md" and
    feats: "model_features md = features" and
    keys: "map fst (label_encoders md) = map fst categorical_cols" and
    ne: "\<forall>classes\<in>snd ` set (label_encoders md). classes \<noteq> []" and
    sev: "map_of (label_encoders md) ''Severity'' = Some labels" and
    voc: "set labels \<subseteq> set severity_vocabulary" and
    clf: "\<forall>x. length x = length features \<and> list_all is_number x \<longrightarrow>
             (\<exists>k<length labels. model x = Inr k)"
    unfolding trained_def by blast
  let ?enc = "label_encoders md"
  let ?row = "map (\<lambda>(k, v). (k, encoded_value ?enc k v)) d"
  let ?x = "map (\<lambda>f. the (map_of ?row f)) features"
  have load: "load_model_and_metadata st = Inr (model, ?enc, features)"
    by (simp add: load_model_and_metadata_def m md feats)
  have enc: "encode_input d ?enc = Inr ?row" by (rule encode_input_row [OF ne])
  have cell: "\<exists>v. map_of d f = Some v \<and> is_number (encoded_value ?enc f v)"
    if "f \<in> set features" for f
    using encoded_value_number [OF keys assms(2) that] .
  have "\<forall>f\<in>set features. map_of ?row f \<noteq> None"
    using cell by (auto simp: map_of_encoded)
  then have sel: "select_columns features ?row = Inr ?x" by (rule select_columns_Inr)
  have "is_number (the (map_of ?row f))" if "f \<in> set features" for f
    using cell [OF that] by (auto simp: map_of_encoded)
  then have "list_all is_number ?x" by (simp add: list_all_iff)
  moreover have "length ?x = length features" by simp
  ultimately have "\<exists>k<length labels. model ?x = Inr k" using clf by blast
  then obtain k where k: "k < length labels" "model ?x = Inr k" by blast
  have pred: "predict model [?x] = Inr [k]" using k(2) by (simp add: predict_def)
  have "predict_severity st d = Inr (labels ! k)"
    using k(1) by (simp add: predict_severity_def load enc sel pred sev decode_label_def)
  with load enc sev voc k(1) show ?thesis by blast
qed

lemma index_of_hd: "classes \<noteq> [] \<Longrightarrow> index_of classes (hd classes) = 0"
  by (cases classes) simp_all

subsection \<open>The batch\<close>

lemma predict_Inr_iff:
  "predict model X = Inr ks \<longleftrightarrow> X \<noteq> [] \<and> list_all2 (\<lambda>x k. model x = Inr k) X ks"
  by (simp add: predict_def those_res_map_iff)

lemma select_frame_Inr_iff:
  "select_frame names ers = Inr X \<longleftrightarrow>
     \<not> (ers = [] \<and> names \<noteq> []) \<and> list_all2 (\<lambda>er x. select_columns names er = Inr x) ers X"
  by (simp add: select_frame_def those_res_map_iff)

lemma predict_single:
  "predict model [x] = (case model x of Inl e \<Rightarrow> Inl e | Inr k \<Rightarrow> Inr [k])"
  by (simp add: predict_def split: sum.splits)

lemma predict_severity_Inr_iff:
  assumes "load_model_and_metadata st = Inr (model, encoders, feats)"
  shows "predict_severity st d = Inr p \<longleftrightarrow>
           (\<exists>labels. map_of encoders ''Severity'' = Some labels \<and>
              predicts model encoders feats labels d p)"
  unfolding predict_severity_def predicts_def assms
  by (auto simp: predict_single OO_def split: sum.splits option.splits)

lemma predict_severity_load_failure:
  "load_model_and_metadata st = Inl e \<Longrightarrow> predict_severity st d = Inl e"
  by (simp add: predict_severity_def)

lemma batch_predictions_load_failure:
  "load_model_and_metadata st = Inl e \<Longrightarrow> batch_predictions st df = Inl e"
  by (simp add: batch_predictions_def)

lemma list_all2_map1': "list_all2 (\<lambda>x y. P (f x) y) xs ys \<longleftrightarrow> list_all2 P (map f xs) ys"
  by (simp add: list_all2_map1)

lemma batch_predictions_Inr_iff:
  assumes "load_model_and_metadata st = Inr (model, encoders, feats)"
  shows "batch_predictions st df = Inr preds \<longleftrightarrow>
           rows df \<noteq> [] \<and>
           (\<exists>labels. map_of encoders ''Severity'' = Some labels \<and>
              list_all2 (predicts model encoders feats labels) (map (to_dict df) (rows df)) preds)"
  (is "?L \<longleftrightarrow> ?R")
proof
  assume ?L
  then obtain ers X ks labels where
    e: "list_all2 (\<lambda>d er. encode_input d encoders = Inr er) (map (to_dict df) (rows df)) ers" and
    s: "\<not> (ers = [] \<and> feats \<noteq> [])"
       "list_all2 (\<lambda>er x. select_columns feats er = Inr x) ers X" and
    p: "X \<noteq> []" "list_all2 (\<lambda>x k. model x = Inr k) X ks" and
    l: "map_of encoders ''Severity'' = Some labels" and
    d: "list_all2 (\<lambda>k p. decode_label labels k = Inr p) ks preds"
    unfolding batch_predictions_def assms
    by (auto simp: those_res_map_iff select_frame_Inr_iff predict_Inr_iff list_all2_map1
        split: sum.splits option.splits)
  from p(1) s(2) e have "rows df \<noteq> []" by auto
  moreover have "list_all2 (predicts model encoders feats labels) (map (to_dict df) (rows df)) preds"
    unfolding predicts_def list.rel_compp using e s(2) p(2) d by blast
  ultimately show ?R using l by blast
next
  assume ?R
  then obtain labels where ne: "rows df \<noteq> []" and
    l: "map_of encoders ''Severity'' = Some labels" and
    all: "list_all2 (predicts model encoders feats labels) (map (to_dict df) (rows df)) preds"
    by blast
  from all obtain ers X ks where
    e: "list_all2 (\<lambda>d er. encode_input d encoders = Inr er) (map (to_dict df) (rows df)) ers" and
    s: "list_all2 (\<lambda>er x. select_columns feats er = Inr x) ers X" and
    p: "list_all2 (\<lambda>x k. model x = Inr k) X ks" and
    d: "list_all2 (\<lambda>k p. decode_label labels k = Inr p) ks preds"
    unfolding predicts_def list.rel_compp by blast
  have ers: "ers \<noteq> []" using e ne by auto
  then have X: "X \<noteq> []" using s by auto
  have 1: "those_res (map (\<lambda>row. encode_input (to_dict df row) encoders) (rows df)) = Inr ers"
    using e by (simp add: those_res_map_iff list_all2_map1)
  have 2: "select_frame feats ers = Inr X" using s ers by (simp add: select_frame_Inr_iff)
  have 3: "predict model X = Inr ks" using p X by (simp add: predict_Inr_iff)
  have 4: "those_res (map (decode_label labels) ks) = Inr preds"
    using d by (simp add: those_res_map_iff)
  show ?L by (simp add: batch_predictions_def assms 1 2 3 l 4)
qed


lemma index_of_less: "v \<in> set xs \<Longrightarrow> index_of xs v < length xs"
  by (induction xs) auto

lemma index_of_nth: "v \<in> set xs \<Longrightarrow> xs ! index_of xs v = v"
  by (induction xs) auto

lemma index_of_append_new: "v \<notin> set xs \<Longrightarrow> index_of (xs @ [v]) v = length xs"
  by (induction xs) auto

lemma nth_of_updated_rows:
  "length rs = length vs \<Longrightarrow> \<forall>r\<in>set rs. i < length r \<Longrightarrow>
     map (\<lambda>row. row ! i) (map (\<lambda>(row, v). row[i := v]) (zip rs vs)) = vs"
  by (induction rs vs rule: list_induct2) auto

lemma nth_of_extended_rows:
  "length rs = length vs \<Longrightarrow> \<forall>r\<in>set rs. length r = n \<Longrightarrow>
     map (\<lambda>row. row ! n) (map (\<lambda>(row, v). row @ [v]) (zip rs vs)) = vs"
  by (induction rs vs rule: list_induct2) auto

lemma column_set_column:
  assumes "rectangular df" and "length vals = length (rows df)"
  shows "column name (set_column name vals df) = Some vals"
proof (cases "name \<in> set (columns df)")
  case True
  let ?i = "index_of (columns df) name"
  have "?i < length (columns df)" using True by (rule index_of_less)
  then have "\<forall>r\<in>set (rows df). ?i < length r"
    using assms(1) by (simp add: rectangular_def list_all_iff)
  with assms(2) have
    "map (\<lambda>row. row ! ?i) (map (\<lambda>(row, v). row[?i := v]) (zip (rows df) vals)) = vals"
    by (intro nth_of_updated_rows) simp_all
  then show ?thesis using True by (simp add: column_def set_column_def)
next
  case False
  have "\<forall>r\<in>set (rows df). length r = length (columns df)"
    using assms(1) by (simp add: rectangular_def list_all_iff)
  with assms(2) have
    "map (\<lambda>row. row ! length (columns df)) (map (\<lambda>(row, v). row @ [v]) (zip (rows df) vals)) = vals"
    by (intro nth_of_extended_rows) simp_all
  then show ?thesis using False by (simp add: column_def set_column_def index_of_append_new)
qed

subsection \<open>What the training persists\<close>

lemma cut_Inr_iff:
  "cut col q1 q2 = Inr labels \<longleftrightarrow>
     (\<exists>a b. q1 = Some a \<and> q2 = Some b \<and> - 1 < a \<and> a < b \<and> labels = map (cut_label a b) col)"
  by (auto simp: cut_def split: option.splits)

lemma quantile_Some_nonempty: "quantile q col = Some v \<Longrightarrow> col \<noteq> []"
  by (auto simp: quantile_def present_def Let_def split: if_splits)

lemma add_severity_label_Inr:
  assumes "add_severity_label df = Inr df1"
  shows "\<exists>a b. - 1 < a \<and> a < b \<and> df \<noteq> [] \<and>
           df1 = map (\<lambda>(r, l). r\<lparr>Severity := l\<rparr>)
                   (zip df (map (cut_label a b) (map affected_users df)))"
proof -
  from assms obtain labels where
    c: "cut (map affected_users df) (quantile 0.33 (map affected_users df))
          (quantile 0.66 (map affected_users df)) = Inr labels" and
    d: "df1 = map (\<lambda>(r, l). r\<lparr>Severity := l\<rparr>) (zip df labels)"
    by (auto simp: add_severity_label_def Let_def split: sum.splits)
  from c obtain a b where
    q: "quantile 0.33 (map affected_users df) = Some a" and
    ab: "- 1 < a" "a < b" "labels = map (cut_label a b) (map affected_users df)"
    unfolding cut_Inr_iff by blast
  from quantile_Some_nonempty [OF q] have "df \<noteq> []" by simp
  with ab d show ?thesis by blast
qed

lemma cut_label_vocabulary:
  assumes "0 \<le> x"
  shows "cut_label a b (Some x) \<in> {Some ''Low'', Some ''Medium'', Some ''High''}"
  using assms by (auto simp: cut_label_def Let_def)

lemma classes_of_nonempty: "col \<noteq> [] \<Longrightarrow> classes_of col \<noteq> []"
proof (cases "None \<in> set col")
  case True
  then show ?thesis by (simp add: classes_of_def)
next
  case False
  assume "col \<noteq> []"
  then obtain c where "c \<in> set col" by (cases col) auto
  with False obtain v where "Some v \<in> set col" by (cases c) auto
  then have "v \<in> set (present col)" by (force simp: present_def)
  then have "sort (remdups (present col)) \<noteq> []"
    by (metis empty_iff list.set(1) set_remdups set_sort)
  then show ?thesis by (simp add: classes_of_def)
qed

lemma classes_of_all_present:
  assumes "\<forall>c\<in>set col. \<exists>v. c = Some v \<and> v \<in> V"
  shows "set (classes_of col) \<subseteq> Str ` V" and "\<forall>c\<in>set col. cell c \<in> set (classes_of col)"
proof -
  have none: "None \<notin> set col" using assms by auto
  have p: "set (present col) = the ` set col"
    using assms by (force simp: present_def split: option.splits)
  show "set (classes_of col) \<subseteq> Str ` V"
    using none assms by (auto simp: classes_of_def p)
  show "\<forall>c\<in>set col. cell c \<in> set (classes_of col)"
  proof
    fix c assume c: "c \<in> set col"
    with assms obtain v where "c = Some v" by blast
    with c have "cell c = Str (the c)" "the c \<in> the ` set col" by (force simp: cell_def)+
    then show "cell c \<in> set (classes_of col)" by (auto simp: classes_of_def p)
  qed
qed

lemma encoders_of_keys: "map fst (encoders_of df) = map fst categorical_cols"
  by (simp add: encoders_of_def comp_def case_prod_beta)

lemma encoders_of_nonempty:
  assumes "df \<noteq> []"
  shows "\<forall>classes\<in>snd ` set (encoders_of df). classes \<noteq> []"
  using assms by (auto simp: encoders_of_def classes_of_nonempty)

lemma encoders_of_Severity:
  "map_of (encoders_of df) ''Severity'' = Some (classes_of (map Severity df))"
  by (simp add: encoders_of_def categorical_cols_def)

lemma training_gives_trained:
  assumes run: "run_model_training fit (Some df) = Inr st"
    and contract: "learner_contract fit"
    and users: "\<forall>r\<in>set df. \<exists>x. affected_users r = Some x \<and> 0 \<le> x"
  shows "trained st"
proof -
  from run obtain df1 model where
    lab: "add_severity_label df = Inr df1" and
    fit: "fit (map (feature_row df1) df1) (severity_codes df1) = Inr model" and
    st: "st = \<lparr> severity_model_pkl = Some model,
                model_features_json =
                  Some \<lparr> label_encoders = encoders_of df1, model_features = features \<rparr> \<rparr>"
    by (auto simp: run_model_training_def load_data_def Let_def split: sum.splits)
  from add_severity_label_Inr [OF lab] obtain a b where
    ne: "df \<noteq> []" and
    df1: "df1 = map (\<lambda>(r, l). r\<lparr>Severity := l\<rparr>)
                   (zip df (map (cut_label a b) (map affected_users df)))"
    by blast
  have ne1: "df1 \<noteq> []" using ne by (simp add: df1)
  have sev: "\<forall>c\<in>set (map Severity df1). \<exists>v. c = Some v \<and> v \<in> {''Low'', ''Medium'', ''High''}"
  proof
    fix c assume "c \<in> set (map Severity df1)"
    then obtain i where i: "i < length df" "c = cut_label a b (affected_users (df ! i))"
      by (auto simp: df1 set_zip)
    then have "df ! i \<in> set df" by simp
    with i(2) obtain r where r: "r \<in> set df" "c = cut_label a b (affected_users r)"
      by blast
    from users r(1) obtain x where "affected_users r = Some x" "0 \<le> x" by blast
    with cut_label_vocabulary [of x a b] r(2)
    show "\<exists>v. c = Some v \<and> v \<in> {''Low'', ''Medium'', ''High''}" by auto
  qed
  let ?labels = "classes_of (map Severity df1)"
  have voc: "set ?labels \<subseteq> set severity_vocabulary"
    using classes_of_all_present(1) [OF sev] by (auto simp: severity_vocabulary_def)
  have codes: "\<forall>k\<in>set (severity_codes df1). k < length ?labels"
    using classes_of_all_present(2) [OF sev] by (auto simp: severity_codes_def index_of_less)
  have clf: "\<forall>x. length x = length features \<and> list_all is_number x \<longrightarrow>
               (\<exists>k<length ?labels. model x = Inr k)"
    using contract fit codes unfolding learner_contract_def by blast
  show ?thesis
    unfolding trained_def st
    using encoders_of_keys [of df1] encoders_of_nonempty [OF ne1] encoders_of_Severity [of df1]
      voc clf
    by (intro exI [of _ model]
        exI [of _ "\<lparr> label_encoders = encoders_of df1, model_features = features \<rparr>"]
        exI [of _ ?labels]) simp
qed

lemma stump_learner_contract: "learner_contract stump_learner"
  by (auto simp: learner_contract_def stump_learner_def split: if_splits)

lemma three_rows_users: "\<forall>r\<in>set three_rows. \<exists>x. affected_users r = Some x \<and> 0 \<le> x"
  by (simp add: three_rows_def three_incidents_def table_row_def incident_of_def affected_users_def)

lemma sample_store_run: "run_model_training stump_learner (Some three_rows) = Inr sample_store"
proof -
  have "\<not> isl (run_model_training stump_learner (Some three_rows))" by code_simp
  then show ?thesis unfolding sample_store_def by simp
qed

lemma sample_store_trained: "trained sample_store"
  using sample_store_run stump_learner_contract three_rows_users by (rule training_gives_trained)

lemma scenario_record_raw: "raw_record scenario_record"
  by code_simp

lemma unseen_record_raw: "raw_record unseen_record"
  by code_simp

subsection \<open>Claims about the predictor\<close>

text \<open>
  C1. On artifacts as a training run persists them, \<^verbatim>\<open>predict_severity\<close> returns, for
  every input record with the ten raw fields (such as the scenario record with country
  India and attack type Phishing), a label of the persisted \<^verbatim>\<open>Severity\<close> vocabulary,
  which is one of Low, Medium and High.
\<close>

theorem predict_severity_label:
  assumes "trained st" and "raw_record input_data"
  shows "\<exists>model encoders feats labels label.
           load_model_and_metadata st = Inr (model, encoders, feats) \<and>
           map_of encoders ''Severity'' = Some labels \<and>
           label \<in> set labels \<and>
           label \<in> set severity_vocabulary \<and>
           predict_severity st input_data = Inr label"
proof -
  from predict_severity_run [OF assms] obtain model and md :: metadata and labels k where
    load: "load_model_and_metadata st = Inr (model, label_encoders md, features)" and
    sev: "map_of (label_encoders md) ''Severity'' = Some labels" and
    voc: "set labels \<subseteq> set severity_vocabulary" and k: "k < length labels" and
    run: "predict_severity st input_data = Inr (labels ! k)"
    by blast
  from k have "labels ! k \<in> set labels" by simp
  moreover from this voc have "labels ! k \<in> set severity_vocabulary" by blast
  ultimately show ?thesis using load sev run by blast
qed

theorem predict_severity_label_witness:
  "trained sample_store \<and> raw_record scenario_record \<and>
   map_of sample_encoders ''Severity'' = Some [Str ''High'', Str ''Low'', Str ''Medium''] \<and>
   predict_severity sample_store scenario_record = Inr (Str ''High'') \<and>
   (\<exists>model encoders feats labels label.
           load_model_and_metadata sample_store = Inr (model, encoders, feats) \<and>
           map_of encoders ''Severity'' = Some labels \<and>
           label \<in> set labels \<and>
           label \<in> set severity_vocabulary \<and>
           predict_severity sample_store scenario_record = Inr label)"
proof -
  have run: "predict_severity sample_store scenario_record = Inr (Str ''High'')" by code_simp
  have voc: "map_of sample_encoders ''Severity'' = Some [Str ''High'', Str ''Low'', Str ''Medium'']"
    by code_simp
  from predict_severity_label [OF sample_store_trained scenario_record_raw]
  have "\<exists>model encoders feats labels label.
           load_model_and_metadata sample_store = Inr (model, encoders, feats) \<and>
           map_of encoders ''Severity'' = Some labels \<and>
           label \<in> set labels \<and>
           label \<in> set severity_vocabulary \<and>
           predict_severity sample_store scenario_record = Inr label" .
  with sample_store_trained scenario_record_raw voc run show ?thesis by (intro conjI)
qed

text \<open>
  C2. On such artifacts and such a record, when a field holds a value that is not in the
  persisted vocabulary of the field, \<^verbatim>\<open>encode_input\<close> raises no error and encodes the
  field as the first entry of the vocabulary, index 0, and \<^verbatim>\<open>predict_severity\<close>
  still returns one of Low, Medium and High.
\<close>

theorem unseen_category_fallback:
  assumes "trained st" and "raw_record input_data"
    and "load_model_and_metadata st = Inr (model, encoders, feats)"
    and "map_of input_data key = Some v"
    and "map_of encoders key = Some classes"
    and "\<not> py_in v classes"
  shows "\<exists>row. encode_input input_data encoders = Inr row \<and>
           map_of row key = Some (Num (real (index_of classes (hd classes)))) \<and>
           index_of classes (hd classes) = 0 \<and>
           (\<exists>label\<in>set severity_vocabulary. predict_severity st input_data = Inr label)"
proof -
  from predict_severity_run [OF assms(1,2)] obtain model' and md :: metadata and labels k where
    load: "load_model_and_metadata st = Inr (model', label_encoders md, features)" and
    enc: "encode_input input_data (label_encoders md) =
             Inr (map (\<lambda>(k, v). (k, encoded_value (label_encoders md) k v)) input_data)" and
    voc: "set labels \<subseteq> set severity_vocabulary" and k: "k < length labels" and
    run: "predict_severity st input_data = Inr (labels ! k)"
    by blast
  from load assms(3) have e: "encoders = label_encoders md" by simp
  let ?row = "map (\<lambda>(k, v). (k, encoded_value encoders k v)) input_data"
  have "(key, classes) \<in> set encoders" using assms(5) by (rule map_of_SomeD)
  moreover from assms(1) e load have "\<forall>classes\<in>snd ` set encoders. classes \<noteq> []"
    by (auto simp: trained_def load_model_and_metadata_def)
  ultimately have ne: "classes \<noteq> []" by force
  have "map_of ?row key = Some (Num (real (index_of classes (hd classes))))"
    unfolding map_of_encoded using assms(4,5,6) by (simp add: encoded_value_def)
  moreover have "index_of classes (hd classes) = 0" using ne by (rule index_of_hd)
  moreover have "\<exists>label\<in>set severity_vocabulary. predict_severity st input_data = Inr label"
    using voc k run by (metis nth_mem subsetD)
  ultimately show ?thesis using enc e by blast
qed

theorem unseen_category_fallback_witness:
  "trained sample_store \<and> raw_record unseen_record \<and>
   load_model_and_metadata sample_store =
     Inr (the (severity_model_pkl sample_store), sample_encoders, features) \<and>
   map_of unseen_record ''Country'' = Some (Str ''Atlantis'') \<and>
   map_of sample_encoders ''Country'' = Some [Str ''Brazil'', Str ''India''] \<and>
   \<not> py_in (Str ''Atlantis'') [Str ''Brazil'', Str ''India''] \<and>
   (\<exists>row. encode_input unseen_record sample_encoders = Inr row \<and>
          map_of row ''Country'' = Some (Num 0) \<and>
          (\<exists>label\<in>set severity_vocabulary.
             predict_severity sample_store unseen_record = Inr label)) \<and>
   predict_severity sample_store unseen_record = Inr (Str ''Low'')"
proof -
  have load: "load_model_and_metadata sample_store =
     Inr (the (severity_model_pkl sample_store), sample_encoders, features)"
    using sample_store_trained
    by (auto simp: trained_def load_model_and_metadata_def sample_encoders_def)
  have field: "map_of unseen_record ''Country'' = Some (Str ''Atlantis'')" by code_simp
  have voc: "map_of sample_encoders ''Country'' = Some [Str ''Brazil'', Str ''India'']"
    by code_simp
  have unseen: "\<not> py_in (Str ''Atlantis'') [Str ''Brazil'', Str ''India'']"
    by (simp add: py_in_def)
  have run: "predict_severity sample_store unseen_record = Inr (Str ''Low'')" by code_simp
  from unseen_category_fallback
    [OF sample_store_trained unseen_record_raw load field voc unseen]
  obtain row where
    "encode_input unseen_record sample_encoders = Inr row"
    "map_of row ''Country'' = Some (Num 0)"
    "\<exists>label\<in>set severity_vocabulary. predict_severity sample_store unseen_record = Inr label"
    by auto
  then have "\<exists>row. encode_input unseen_record sample_encoders = Inr row \<and>
          map_of row ''Country'' = Some (Num 0) \<and>
          (\<exists>label\<in>set severity_vocabulary.
             predict_severity sample_store unseen_record = Inr label)"
    by blast
  with sample_store_trained unseen_record_raw load field voc unseen run
  show ?thesis by (intro conjI)
qed

text \<open>
  C6. For every table and all artifacts, \<^verbatim>\<open>predict_batch\<close> returns exactly when the
  table has a row and \<^verbatim>\<open>predict_severity\<close> returns on the record of every row alone,
  and the column it adds holds, row by row, the labels of those single predictions.
\<close>

theorem predict_batch_row_by_row:
  "(predict_batch st df = Inr df' \<longleftrightarrow>
      rows df \<noteq> [] \<and>
      (\<exists>preds. list_all2 (\<lambda>row p. predict_severity st (to_dict df row) = Inr p) (rows df) preds \<and>
         df' = set_column ''Predicted Severity'' preds df)) \<and>
   (predict_batch st df = Inr df' \<and> rectangular df \<longrightarrow>
      (\<exists>preds. column ''Predicted Severity'' df' = Some preds \<and>
         list_all2 (\<lambda>row p. predict_severity st (to_dict df row) = Inr p) (rows df) preds))"
proof -
  have main: "batch_predictions st df = Inr preds \<longleftrightarrow>
        rows df \<noteq> [] \<and>
        list_all2 (\<lambda>row p. predict_severity st (to_dict df row) = Inr p) (rows df) preds" for preds
  proof (cases "load_model_and_metadata st")
    case (Inl e)
    have "\<not> list_all2 (\<lambda>row p. predict_severity st (to_dict df row) = Inr p) (rows df) preds"
      if "rows df \<noteq> []"
      using that predict_severity_load_failure [OF Inl]
      by (cases "rows df") (auto simp: list_all2_Cons1)
    then show ?thesis using batch_predictions_load_failure [OF Inl] by auto
  next
    case (Inr a)
    then obtain model encoders feats where
      load: "load_model_and_metadata st = Inr (model, encoders, feats)"
      by (cases a) auto
    show ?thesis
    proof (cases "map_of encoders ''Severity''")
      case None
      have "\<not> list_all2 (\<lambda>row p. predict_severity st (to_dict df row) = Inr p) (rows df) preds"
        if "rows df \<noteq> []"
        using that None
        by (cases "rows df") (auto simp: list_all2_Cons1 predict_severity_Inr_iff [OF load])
      then show ?thesis using None by (auto simp: batch_predictions_Inr_iff [OF load])
    next
      case (Some labels)
      have "list_all2 (\<lambda>row p. predict_severity st (to_dict df row) = Inr p) (rows df) preds \<longleftrightarrow>
            list_all2 (predicts model encoders feats labels) (map (to_dict df) (rows df)) preds"
        by (simp add: predict_severity_Inr_iff [OF load] Some list_all2_map1)
      then show ?thesis by (simp add: batch_predictions_Inr_iff [OF load] Some)
    qed
  qed
  have first: "predict_batch st df = Inr df' \<longleftrightarrow>
      rows df \<noteq> [] \<and>
      (\<exists>preds. list_all2 (\<lambda>row p. predict_severity st (to_dict df row) = Inr p) (rows df) preds \<and>
         df' = set_column ''Predicted Severity'' preds df)"
  proof (cases "batch_predictions st df")
    case (Inl e)
    then show ?thesis using main by (auto simp: predict_batch_def)
  next
    case (Inr preds)
    have "preds' = preds"
      if "list_all2 (\<lambda>row p. predict_severity st (to_dict df row) = Inr p) (rows df) preds'"
      for preds'
      using that main [of preds'] main [of preds] Inr by simp
    then show ?thesis using Inr main [of preds] by (auto simp: predict_batch_def)
  qed
  have second: "\<exists>preds. column ''Predicted Severity'' df' = Some preds \<and>
         list_all2 (\<lambda>row p. predict_severity st (to_dict df row) = Inr p) (rows df) preds"
    if run: "predict_batch st df = Inr df'" and rect: "rectangular df"
  proof -
    from run first obtain preds where
      p: "list_all2 (\<lambda>row p. predict_severity st (to_dict df row) = Inr p) (rows df) preds"
         "df' = set_column ''Predicted Severity'' preds df"
      by blast
    from p(1) have "length preds = length (rows df)" by (simp add: list_all2_lengthD)
    from column_set_column [OF rect this] p show ?thesis by blast
  qed
  from first second show ?thesis by blast
qed

theorem predict_batch_row_by_row_witness:
  "rectangular sample_table \<and>
   rows sample_table = [map snd scenario_record, map snd unseen_record] \<and>
   to_dict sample_table (map snd scenario_record) = scenario_record \<and>
   to_dict sample_table (map snd unseen_record) = unseen_record \<and>
   predict_severity sample_store scenario_record = Inr (Str ''High'') \<and>
   predict_severity sample_store unseen_record = Inr (Str ''Low'') \<and>
   (\<exists>df'. predict_batch sample_store sample_table = Inr df' \<and>
          column ''Predicted Severity'' df' = Some [Str ''High'', Str ''Low''])"
proof -
  have rect: "rectangular sample_table" by code_simp
  have rws: "rows sample_table = [map snd scenario_record, map snd unseen_record]" by code_simp
  have d0: "to_dict sample_table (map snd scenario_record) = scenario_record" by code_simp
  have d1: "to_dict sample_table (map snd unseen_record) = unseen_record" by code_simp
  have p0: "predict_severity sample_store scenario_record = Inr (Str ''High'')" by code_simp
  have p1: "predict_severity sample_store unseen_record = Inr (Str ''Low'')" by code_simp
  have all: "list_all2 (\<lambda>row p. predict_severity sample_store (to_dict sample_table row) = Inr p)
               (rows sample_table) [Str ''High'', Str ''Low'']"
    by (simp add: rws d0 d1 p0 p1)
  define df' where "df' = set_column ''Predicted Severity'' [Str ''High'', Str ''Low''] sample_table"
  have ne: "rows sample_table \<noteq> []" by (simp add: rws)
  from predict_batch_row_by_row [of sample_store sample_table df'] all ne
  have run: "predict_batch sample_store sample_table = Inr df'"
    unfolding df'_def by blast
  with predict_batch_row_by_row [of sample_store sample_table df'] rect
  obtain preds where
    col: "column ''Predicted Severity'' df' = Some preds" and
    ps: "list_all2 (\<lambda>row p. predict_severity sample_store (to_dict sample_table row) = Inr p)
           (rows sample_table) preds"
    by blast
  from ps have "preds = [Str ''High'', Str ''Low'']"
    by (auto simp: rws d0 d1 p0 p1 list_all2_Cons1)
  with col run have "\<exists>df'. predict_batch sample_store sample_table = Inr df' \<and>
          column ''Predicted Severity'' df' = Some [Str ''High'', Str ''Low'']"
    by blast
  with rect rws d0 d1 p0 p1 show ?thesis by (intro conjI)
qed

end
